theory Spec2Isabelle
  imports Main "HOL-Library.Word"
begin

unbundle bit_operations_syntax

section \<open>Data model\<close>

text \<open>
  Go strings are byte sequences and are modelled as \<open>string\<close> (a list of 8-bit characters);
  \<open>[]byte\<close> values that travel on the wire are lists of 8-bit words. Go's \<open>int\<close> and
  \<open>int64\<close> fields are \<open>int\<close>; \<open>time.Duration\<close> is a number of nanoseconds.
\<close>

type_synonym byte = "8 word"

record Metric =
  Host :: string
  Key :: string
  Value :: string
  Clock :: int
  NS :: int
  Active :: bool

record Packet =
  Request :: string
  Data :: "Metric list"
  Clock :: int
  NS :: int
  Host :: string
  HostMetadata :: string

record RedirectInfo =
  Revision :: int
  Address :: string

record Response =
  Response :: string
  Info :: string
  Redirect :: "RedirectInfo option"

record ResponseInfo =
  Processed :: int
  Failed :: int
  Total :: int
  Spent :: int

record Sender =
  Hosts :: "string list"
  PrimaryHost :: string
  MaxRedirects :: int
  UpdateHost :: bool
  ConnectTimeout :: int
  ReadTimeout :: int
  WriteTimeout :: int

text \<open>
  One constructor for each \<open>fmt.Errorf\<close> of sender.go and of \<open>parseHostPort\<close>, carrying the
  values the message is formatted from (the timeouts and the text of the underlying
  library error are left out). \<open>SendOnceFailed\<close> wraps its cause, as \<open>%w\<close> does.
\<close>

datatype error =
    ConnectingTo string
  | SendingData string
  | ReadingResponse string
  | ResponseTooShort string nat
  | NoValidHeader "byte list"
  | ResponseNotValid string
  | SendOnceFailed string error
  | FailedWithoutRedirect string string
  | InvalidRedirectAddress string
  | MaxRedirectsExceeded string
  | AllHostsFailed nat

text \<open>The errors of \<open>RegisterHost\<close> and of \<open>GetInfo\<close>.\<close>

datatype register_error =
    SendingPacket error
  | AutoregistrationFailed

datatype info_error =
    CanNotProcessInfo string
  | SplitExpected4 nat string
  | SplitExpected2 nat string
  | SecondsSpentParsing string

text \<open>
  The error taxonomy of the specification (its section 7). The Go code has only formatted
  messages; \<open>error_class\<close> and \<open>info_error_class\<close> read the taxonomy off the place where
  each message is produced, following the specification's description of each kind.
\<close>

datatype error_kind =
    ConnectError
  | IOError
  | ProtocolError
  | RejectedError
  | InvalidRedirectError
  | RedirectLimitExceeded
  | AllHostsFailedError
  | ParseError
  | InvalidStateError

fun error_class :: "error \<Rightarrow> error_kind" where
  "error_class (ConnectingTo h) = ConnectError"
| "error_class (SendingData h) = IOError"
| "error_class (ReadingResponse h) = IOError"
| "error_class (ResponseTooShort h n) = ProtocolError"
| "error_class (NoValidHeader header) = ProtocolError"
| "error_class (ResponseNotValid h) = ProtocolError"
| "error_class (SendOnceFailed h e) = error_class e"
| "error_class (FailedWithoutRedirect h r) = RejectedError"
| "error_class (InvalidRedirectAddress a) = InvalidRedirectError"
| "error_class (MaxRedirectsExceeded h) = RedirectLimitExceeded"
| "error_class (AllHostsFailed n) = AllHostsFailedError"

fun info_error_class :: "info_error \<Rightarrow> error_kind" where
  "info_error_class (CanNotProcessInfo r) = InvalidStateError"
| "info_error_class (SplitExpected4 n s) = ParseError"
| "info_error_class (SplitExpected2 n s) = ParseError"
| "info_error_class (SecondsSpentParsing v) = ParseError"

section \<open>The environment of a sender\<close>

text \<open>
  What one \<open>sendOnce\<close> observes of the network: the connection is refused or times out,
  the write fails, the read fails, or \<open>io.ReadAll\<close> returns the bytes the peer sent before
  it closed the connection.
\<close>

datatype io_outcome =
    ConnectFails
  | WriteFails
  | ReadFails
  | Received "byte list"

text \<open>
  The standard library and the network are parameters of the model:
  \<^item> \<open>Marshal\<close> is \<open>json.Marshal\<close> on a \<open>Packet\<close>;
  \<^item> \<open>Unmarshal\<close> is \<open>json.Unmarshal\<close> into a zero \<open>Response\<close>, \<open>None\<close> when it returns an error;
  \<^item> \<open>peer\<close> is the other side of the network: given the exchanges attempted so far, the
    address dialled and the request, it fixes the outcome of the exchange.
\<close>

record env =
  Marshal :: "Packet \<Rightarrow> byte list"
  Unmarshal :: "byte list \<Rightarrow> Response option"
  peer :: "(string \<times> byte list) list \<Rightarrow> string \<Rightarrow> byte list \<Rightarrow> io_outcome"

text \<open>
  The state threaded through a send: the \<open>Sender\<close> behind the receiver pointer and three
  logs of the effects the properties below speak about, each in order of occurrence.
  \<^item> \<open>dials\<close> has one entry for each call of \<open>net.DialTimeout\<close>: the address and the request
    that is written once the connection is up.
  \<^item> \<open>drives\<close> has one entry for each call of \<open>sendWithRedirects\<close>: its \<open>startHost\<close>.
  \<^item> \<open>assigned\<close> has one entry for each assignment to \<open>s.PrimaryHost\<close>: the value assigned.
\<close>

record state =
  sender :: Sender
  dials :: "(string \<times> byte list) list"
  drives :: "string list"
  assigned :: "string list"

section \<open>Framing\<close>

definition getHeader :: "byte list" where
  "getHeader = map of_char ''ZBXD'' @ [1]"

text \<open>
  \<open>binary.LittleEndian.PutUint32(b, v)\<close> stores the four bytes of \<open>v\<close> at \<open>b[0..3]\<close>
  (it panics when \<open>b\<close> is shorter; its one caller passes eight bytes).
\<close>

definition PutUint32 :: "byte list \<Rightarrow> 32 word \<Rightarrow> byte list" where
  "PutUint32 b v =
     b[0 := ucast v, 1 := ucast (drop_bit 8 v), 2 := ucast (drop_bit 16 v),
       3 := ucast (drop_bit 24 v)]"

text \<open>\<open>uint32(len(JSONData))\<close> keeps the low 32 bits of the length: \<open>of_nat\<close> into a 32-bit word.\<close>

definition DataLen :: "env \<Rightarrow> Packet \<Rightarrow> byte list" where
  "DataLen E p =
     (let dataLen = replicate 8 0;
          JSONData = Marshal E p
      in PutUint32 dataLen (of_nat (length JSONData)))"

text \<open>The buffer \<open>sendOnce\<close> fills and writes (lines 146 to 150 of sender.go).\<close>

definition sendOnce_buffer :: "env \<Rightarrow> Packet \<Rightarrow> byte list" where
  "sendOnce_buffer E packet =
     (let dataPacket = Marshal E packet;
          buffer = getHeader @ DataLen E packet
      in buffer @ dataPacket)"

text \<open>
  The little-endian encoding of a number on \<open>n\<close> bytes, as the specification's wire format
  words it; used to state the framing property, not by the code.
\<close>

fun le_bytes :: "nat \<Rightarrow> nat \<Rightarrow> byte list" where
  "le_bytes 0 v = []"
| "le_bytes (Suc n) v = of_nat (v mod 256) # le_bytes n (v div 256)"

section \<open>Single-attempt transport\<close>

text \<open>
  \<open>sendOnce\<close>: dial, write the buffer, read to the end, check length and header, decode.
  The \<open>Response\<close> that Go returns next to a non-nil error is dropped: no caller modelled
  here reads it.
\<close>

definition sendOnce :: "env \<Rightarrow> Packet \<Rightarrow> string \<Rightarrow> state \<Rightarrow> (error + Response) \<times> state" where
  "sendOnce E packet host st =
     (let buffer = sendOnce_buffer E packet;
          st' = st\<lparr>dials := dials st @ [(host, buffer)]\<rparr>
      in case peer E (dials st) host buffer of
           ConnectFails \<Rightarrow> (Inl (ConnectingTo host), st')
         | WriteFails \<Rightarrow> (Inl (SendingData host), st')
         | ReadFails \<Rightarrow> (Inl (ReadingResponse host), st')
         | Received response \<Rightarrow>
             if length response < 13 then (Inl (ResponseTooShort host (length response)), st')
             else
               let header = take 5 response;
                   data = drop 13 response
               in if header \<noteq> getHeader then (Inl (NoValidHeader header), st')
                  else (case Unmarshal E data of
                          None \<Rightarrow> (Inl (ResponseNotValid host), st')
                        | Some res \<Rightarrow> (Inr res, st')))"


section \<open>Addresses\<close>

text \<open>
  \<open>strings.TrimSpace\<close> removes the leading and the trailing white space runes: the six
  ASCII ones and, in their UTF-8 encoding, U+0085, U+00A0, U+1680, U+2000 to U+200A,
  U+2028, U+2029, U+202F, U+205F and U+3000.
\<close>

definition asciiSpace :: "char \<Rightarrow> bool" where
  "asciiSpace c = ((9 \<le> (of_char c :: nat) \<and> (of_char c :: nat) \<le> 13) \<or> (of_char c :: nat) = 32)"

definition unicodeSpaces :: "string list" where
  "unicodeSpaces =
     [[CHR 0xC2, CHR 0x85], [CHR 0xC2, CHR 0xA0], [CHR 0xE1, CHR 0x9A, CHR 0x80]] @
     map (\<lambda>b. [CHR 0xE2, CHR 0x80, b])
       [CHR 0x80, CHR 0x81, CHR 0x82, CHR 0x83, CHR 0x84, CHR 0x85, CHR 0x86, CHR 0x87,
        CHR 0x88, CHR 0x89, CHR 0x8A] @
     [[CHR 0xE2, CHR 0x80, CHR 0xA8], [CHR 0xE2, CHR 0x80, CHR 0xA9],
      [CHR 0xE2, CHR 0x80, CHR 0xAF], [CHR 0xE2, CHR 0x81, CHR 0x9F],
      [CHR 0xE3, CHR 0x80, CHR 0x80]]"

text \<open>
  The width of the white space rune that \<open>s\<close> starts with, if it starts with one. A byte
  below 0x80 is a rune of its own.
\<close>

definition spaceWidth :: "string list \<Rightarrow> string \<Rightarrow> nat option" where
  "spaceWidth runes s =
     (case s of
        [] \<Rightarrow> None
      | c # cs \<Rightarrow>
          if asciiSpace c then Some 1
          else if (of_char c :: nat) < 128 then None
          else (case find (\<lambda>r. r \<noteq> [] \<and> take (length r) s = r) runes of
                  None \<Rightarrow> None
                | Some r \<Rightarrow> Some (length r)))"

function dropSpaces :: "string list \<Rightarrow> string \<Rightarrow> string" where
  "dropSpaces runes s =
     (case spaceWidth runes s of
        None \<Rightarrow> s
      | Some k \<Rightarrow> dropSpaces runes (drop k s))"
  by pat_completeness auto
termination
proof (relation "measure (\<lambda>(runes, s). length s)")
  show "wf (measure (\<lambda>(runes, s). length s))" by simp
next
  fix runes :: "string list" and s :: string and k :: nat
  assume "spaceWidth runes s = Some k"
  then have "s \<noteq> [] \<and> 0 < k"
    by (auto simp: spaceWidth_def find_Some_iff split: list.splits if_splits option.splits)
  then show "((runes, drop k s), (runes, s)) \<in> measure (\<lambda>(runes, s). length s)"
    by simp
qed

definition TrimSpace :: "string \<Rightarrow> string" where
  "TrimSpace s = rev (dropSpaces (map rev unicodeSpaces) (rev (dropSpaces unicodeSpaces s)))"

text \<open>\<open>parseHostPort\<close> of package \<open>zabbix\<close>, the package of sender.go.\<close>

definition parseHostPort :: "string \<Rightarrow> error + string" where
  "parseHostPort addr =
     (if CHR '':'' \<notin> set addr then Inl (InvalidRedirectAddress addr) else Inr addr)"

definition normalizeHost :: "string \<Rightarrow> string" where
  "normalizeHost addr0 =
     (let addr = TrimSpace addr0
      in if addr = [] then addr
         else if CHR '':'' \<in> set addr then addr
         else addr @ '':10051'')"







section \<open>Constructors\<close>

definition defaultConnectTimeout :: int where "defaultConnectTimeout = 5 * 1000000000"
definition defaultWriteTimeout :: int where "defaultWriteTimeout = 5 * 1000000000"
definition defaultReadTimeout :: int where "defaultReadTimeout = 15 * 1000000000"
definition defaultMaxRedirects :: int where "defaultMaxRedirects = 3"
definition defaultUpdateHost :: bool where "defaultUpdateHost = False"

text \<open>
  \<open>NewSender\<close> and \<open>NewSenderHosts\<close>. A field left out of a Go composite literal has its
  zero value: \<open>PrimaryHost\<close> is empty. (\<open>NewSenderTimeout\<close> is in the sources twice, once with
  and once without \<open>normalizeHost\<close>; no property below is about it.)
\<close>

definition NewSender :: "string \<Rightarrow> Sender" where
  "NewSender host =
     \<lparr>Hosts = [normalizeHost host], PrimaryHost = [], MaxRedirects = defaultMaxRedirects,
      UpdateHost = defaultUpdateHost, ConnectTimeout = defaultConnectTimeout,
      ReadTimeout = defaultReadTimeout, WriteTimeout = defaultWriteTimeout\<rparr>"

definition NewSenderHosts :: "string list \<Rightarrow> Sender" where
  "NewSenderHosts hosts =
     \<lparr>Hosts = map normalizeHost hosts, PrimaryHost = [], MaxRedirects = defaultMaxRedirects,
      UpdateHost = defaultUpdateHost, ConnectTimeout = defaultConnectTimeout,
      ReadTimeout = defaultReadTimeout, WriteTimeout = defaultWriteTimeout\<rparr>"

text \<open>The state of a sender before its first send: nothing dialled, nothing assigned.\<close>

definition fresh :: "Sender \<Rightarrow> state" where
  "fresh s = \<lparr>sender = s, dials = [], drives = [], assigned = []\<rparr>"

section \<open>Redirect-following driver\<close>

text \<open>
  The loop of \<open>sendWithRedirects\<close>, with \<open>currentHost\<close> and \<open>redirectCount\<close> as arguments.
  \<open>redirectCount\<close> is an unbounded \<open>int\<close> here; Go's counter is 64 bits wide, which is the
  same as long as \<open>MaxRedirects\<close> is below the largest \<open>int\<close>.
\<close>

function sendWithRedirects_loop ::
  "env \<Rightarrow> Packet \<Rightarrow> string \<Rightarrow> string \<Rightarrow> int \<Rightarrow> state \<Rightarrow> (error + Response) \<times> state" where
  "sendWithRedirects_loop E packet startHost currentHost redirectCount st =
     (if redirectCount \<le> MaxRedirects (sender st) then
        (case sendOnce E packet currentHost st of
           (Inl err, st1) \<Rightarrow> (Inl (SendOnceFailed currentHost err), st1)
         | (Inr res, st1) \<Rightarrow>
             if Response res = ''success'' then (Inr res, st1)
             else
               (case Redirect res of
                  None \<Rightarrow> (Inl (FailedWithoutRedirect currentHost (Response res)), st1)
                | Some rd \<Rightarrow>
                    if Address rd = [] then
                      (Inl (FailedWithoutRedirect currentHost (Response res)), st1)
                    else
                      (case parseHostPort (Address rd) of
                         Inl err \<Rightarrow> (Inl err, st1)
                       | Inr newHost \<Rightarrow>
                           sendWithRedirects_loop E packet startHost newHost (redirectCount + 1) st1)))
      else (Inl (MaxRedirectsExceeded startHost), st))"
  by pat_completeness auto
termination
proof (relation "measure (\<lambda>(E, packet, startHost, currentHost, redirectCount, st).
          nat (MaxRedirects (sender st) + 1 - redirectCount))")
qed (auto simp: sendOnce_def Let_def split: io_outcome.splits if_splits option.splits)

definition sendWithRedirects :: "env \<Rightarrow> Packet \<Rightarrow> string \<Rightarrow> state \<Rightarrow> (error + Response) \<times> state" where
  "sendWithRedirects E packet startHost st =
     sendWithRedirects_loop E packet startHost startHost 0 (st\<lparr>drives := drives st @ [startHost]\<rparr>)"

section \<open>Host fallback and cache\<close>

definition assignPrimaryHost :: "string \<Rightarrow> state \<Rightarrow> state" where
  "assignPrimaryHost host st =
     st\<lparr>sender := (sender st)\<lparr>PrimaryHost := host\<rparr>, assigned := assigned st @ [host]\<rparr>"

text \<open>The loop \<open>for _, host := range s.Hosts\<close> of \<open>Send\<close>, with the hosts still to try.\<close>

fun Send_range :: "env \<Rightarrow> Packet \<Rightarrow> string list \<Rightarrow> state \<Rightarrow> (error + Response) \<times> state" where
  "Send_range E packet [] st = (Inl (AllHostsFailed (length (Hosts (sender st)))), st)"
| "Send_range E packet (host # hosts) st =
     (case sendWithRedirects E packet host st of
        (Inr res, st1) \<Rightarrow> (Inr res, assignPrimaryHost host st1)
      | (Inl err, st1) \<Rightarrow> Send_range E packet hosts st1)"

definition Send :: "env \<Rightarrow> Packet \<Rightarrow> state \<Rightarrow> (error + Response) \<times> state" where
  "Send E packet st =
     (if PrimaryHost (sender st) \<noteq> [] then
        (case sendWithRedirects E packet (PrimaryHost (sender st)) st of
           (Inr res, st1) \<Rightarrow> (Inr res, st1)
         | (Inl err, st1) \<Rightarrow>
             let st2 = assignPrimaryHost [] st1
             in Send_range E packet (Hosts (sender st2)) st2)
      else Send_range E packet (Hosts (sender st)) st)"

section \<open>Registration\<close>

definition RegisterHost :: "env \<Rightarrow> string \<Rightarrow> string \<Rightarrow> state \<Rightarrow> register_error option \<times> state" where
  "RegisterHost E host hostmetadata st =
     (let p = \<lparr>Request = ''active checks'', Data = [], Clock = 0, NS = 0, Host = host,
                HostMetadata = hostmetadata\<rparr>
      in case Send E p st of
           (Inl err, st1) \<Rightarrow> (Some (SendingPacket err), st1)
         | (Inr res, st1) \<Rightarrow>
             if Response res = ''success'' then (None, st1)
             else
               (case Send E p st1 of
                  (Inl err, st2) \<Rightarrow> (Some (SendingPacket err), st2)
                | (Inr res2, st2) \<Rightarrow>
                    if Response res2 = ''failed'' then (Some AutoregistrationFailed, st2)
                    else (None, st2)))"


section \<open>Statistics parser\<close>

text \<open>\<open>strings.Split\<close> with a separator of one byte.\<close>

fun Split :: "string \<Rightarrow> char \<Rightarrow> string list" where
  "Split [] sep = [[]]"
| "Split (c # cs) sep =
     (if c = sep then [] # Split cs sep
      else (case Split cs sep of [] \<Rightarrow> [[c]] | x # xs \<Rightarrow> (c # x) # xs))"

text \<open>
  \<open>strconv.Atoi\<close> with a 64-bit \<open>int\<close>. It returns a value and an error: on a syntax error
  the value is 0, on a range error it is the nearest bound. \<open>ParseUint_loop\<close> is the digit
  loop of \<open>strconv.ParseUint\<close> in base 10 on 64 bits, which \<open>Atoi\<close> reaches through
  \<open>ParseInt\<close> (its fast path for short inputs computes the same); 18446744073709551615
  is \<open>2\<^sup>6\<^sup>4 - 1\<close> and 9223372036854775808 is \<open>2\<^sup>6\<^sup>3\<close>.
\<close>

datatype num_error = ErrSyntax | ErrRange

definition isDigit :: "char \<Rightarrow> bool" where
  "isDigit c = (48 \<le> (of_char c :: nat) \<and> (of_char c :: nat) \<le> 57)"

fun ParseUint_loop :: "string \<Rightarrow> nat \<Rightarrow> nat \<times> num_error option" where
  "ParseUint_loop [] n = (n, None)"
| "ParseUint_loop (c # cs) n =
     (if \<not> isDigit c then (0, Some ErrSyntax)
      else if n \<ge> 18446744073709551615 div 10 + 1 then (18446744073709551615, Some ErrRange)
      else
        let n1 = n * 10 + (of_char c - 48)
        in if n1 > 18446744073709551615 then (18446744073709551615, Some ErrRange)
           else ParseUint_loop cs n1)"

definition Atoi :: "string \<Rightarrow> int \<times> num_error option" where
  "Atoi s =
     (let (neg, ds) =
            (case s of
               [] \<Rightarrow> (False, [])
             | c # cs \<Rightarrow>
                 if c = CHR ''+'' then (False, cs)
                 else if c = CHR ''-'' then (True, cs)
                 else (False, s))
      in if ds = [] then (0, Some ErrSyntax)
         else
           (case ParseUint_loop ds 0 of
              (un, Some ErrSyntax) \<Rightarrow> (0, Some ErrSyntax)
            | (un, _) \<Rightarrow>
                if \<not> neg \<and> un \<ge> 9223372036854775808 then (9223372036854775807, Some ErrRange)
                else if neg \<and> un > 9223372036854775808 then (- 9223372036854775808, Some ErrRange)
                else (if neg then - int un else int un, None)))"

text \<open>
  \<open>GetInfo\<close>. Floating point is outside this embedding: \<open>ParseFloat\<close> stands for
  \<open>strconv.ParseFloat(value, 64)\<close> followed by \<open>int64(f * 1000000000.0)\<close>, \<open>None\<close> when
  \<open>ParseFloat\<close> returns an error. The error that \<open>Atoi\<close> returns is assigned to \<open>err\<close> and
  not read again; only its value is stored.
\<close>

fun GetInfo_range ::
  "(string \<Rightarrow> int option) \<Rightarrow> string list \<Rightarrow> ResponseInfo \<Rightarrow> info_error + ResponseInfo" where
  "GetInfo_range ParseFloat [] ret = Inr ret"
| "GetInfo_range ParseFloat (x # xs) ret =
     (case Split x CHR '':'' of
        [k, v] \<Rightarrow>
          let key = TrimSpace k;
              val = TrimSpace v
          in if key = ''processed'' then
               GetInfo_range ParseFloat xs (ret\<lparr>Processed := fst (Atoi val)\<rparr>)
             else if key = ''failed'' then
               GetInfo_range ParseFloat xs (ret\<lparr>Failed := fst (Atoi val)\<rparr>)
             else if key = ''total'' then
               GetInfo_range ParseFloat xs (ret\<lparr>Total := fst (Atoi val)\<rparr>)
             else if key = ''seconds spent'' then
               (case ParseFloat val of
                  None \<Rightarrow> Inl (SecondsSpentParsing val)
                | Some d \<Rightarrow> GetInfo_range ParseFloat xs (ret\<lparr>Spent := d\<rparr>))
             else GetInfo_range ParseFloat xs ret
      | sp2 \<Rightarrow> Inl (SplitExpected2 (length sp2) x))"

definition GetInfo :: "(string \<Rightarrow> int option) \<Rightarrow> Response \<Rightarrow> info_error + ResponseInfo" where
  "GetInfo ParseFloat r =
     (let ret = \<lparr>Processed = 0, Failed = 0, Total = 0, Spent = 0\<rparr>
      in if Response r \<noteq> ''success'' then Inl (CanNotProcessInfo (Response r))
         else
           let sp = Split (Info r) CHR '';''
           in if length sp \<noteq> 4 then Inl (SplitExpected4 (length sp) (Info r))
              else GetInfo_range ParseFloat sp ret)"


section \<open>Notions used to state the properties\<close>

text \<open>
  A response is a redirect to \<open>b\<close> when \<open>sendWithRedirects\<close> goes on with \<open>b\<close> after it: its
  status is not success, it carries a redirect descriptor with a non-empty address, and
  \<open>parseHostPort\<close> accepts that address as \<open>b\<close>.
\<close>

definition redirects_to :: "Response \<Rightarrow> string \<Rightarrow> bool" where
  "redirects_to res b =
     (Response res \<noteq> ''success'' \<and>
      (case Redirect res of
         None \<Rightarrow> False
       | Some rd \<Rightarrow> Address rd \<noteq> [] \<and> parseHostPort (Address rd) = Inr b))"

text \<open>
  A chain of redirect responses: the exchange with \<open>a\<close> is answered by a redirect to the
  first address of the list, the exchange with that address by a redirect to the next one,
  and so on. The result is the state after these exchanges.
\<close>

fun redirect_chain :: "env \<Rightarrow> Packet \<Rightarrow> string \<Rightarrow> string list \<Rightarrow> state \<Rightarrow> state option" where
  "redirect_chain E p a [] st = Some st"
| "redirect_chain E p a (b # bs) st =
     (case sendOnce E p a st of
        (Inl err, st1) \<Rightarrow> None
      | (Inr res, st1) \<Rightarrow> if redirects_to res b then redirect_chain E p b bs st1 else None)"

text \<open>
  Every drive of a list fails: the drive from the first address returns an error, then the
  drive from the second, and so on. The result is the state after these drives; \<open>None\<close>
  when one of them succeeds.
\<close>

fun drives_fail :: "env \<Rightarrow> Packet \<Rightarrow> string list \<Rightarrow> state \<Rightarrow> state option" where
  "drives_fail E p [] st = Some st"
| "drives_fail E p (h # hs) st =
     (case sendWithRedirects E p h st of
        (Inl err, st1) \<Rightarrow> drives_fail E p hs st1
      | (Inr res, st1) \<Rightarrow> None)"

definition setUpdateHost :: "bool \<Rightarrow> state \<Rightarrow> state" where
  "setUpdateHost b st = st\<lparr>sender := (sender st)\<lparr>UpdateHost := b\<rparr>\<rparr>"



section \<open>A scripted environment for the examples\<close>

text \<open>
  A response as the mock server of the tests writes it (\<open>writeZabbixResponse\<close>): the
  header, the length of the body on eight bytes, the body.
\<close>

definition writeZabbixResponse :: "string \<Rightarrow> byte list" where
  "writeZabbixResponse jsonData =
     map of_char ''ZBXD'' @ [1] @ le_bytes 8 (length jsonData) @ map of_char jsonData"

text \<open>The response bodies of the examples, each with the \<open>Response\<close> it decodes to.\<close>

definition json_success :: string where
  \<open>json_success = ''{"response":"success"}''\<close>

definition json_not_found :: string where
  \<open>json_not_found = ''{"response":"failed","info":"host [prueba] not found"}''\<close>

definition json_redirect :: "string \<Rightarrow> string" where
  \<open>json_redirect a = ''{"response":"failed","redirect":{"revision":1,"address":"'' @ a @ ''"}}''\<close>

definition res_success :: Response where
  "res_success = \<lparr>Response = ''success'', Info = [], Redirect = None\<rparr>"

definition res_not_found :: Response where
  "res_not_found = \<lparr>Response = ''failed'', Info = ''host [prueba] not found'', Redirect = None\<rparr>"

definition res_redirect :: "string \<Rightarrow> Response" where
  "res_redirect a = \<lparr>Response = ''failed'', Info = [], Redirect = Some \<lparr>Revision = 1, Address = a\<rparr>\<rparr>"

definition Unmarshal_table :: "byte list \<Rightarrow> Response option" where
  "Unmarshal_table data =
     map_of
       [(map of_char json_success, res_success),
        (map of_char json_not_found, res_not_found),
        (map of_char (json_redirect ''r2:10051''), res_redirect ''r2:10051''),
        (map of_char (json_redirect ''r3:10051''), res_redirect ''r3:10051'')]
       data"

text \<open>
  What \<open>json.Marshal\<close> gives for a packet without metrics and without batch timestamp
  whose strings need no escaping.
\<close>

definition Marshal_plain :: "Packet \<Rightarrow> byte list" where
  \<open>Marshal_plain p =
     map of_char
       (''{"request":"'' @ Request p @ ''"'' @
        (if Host p = [] then [] else '',"host":"'' @ Host p @ ''"'') @
        (if HostMetadata p = [] then [] else '',"host_metadata":"'' @ HostMetadata p @ ''"'') @
        ''}'')\<close>

text \<open>
  A peer that answers by address: the \<open>n\<close>-th exchange with an address gets the \<open>n\<close>-th
  outcome listed for it; an address that is not listed, or whose list is used up, refuses
  the connection.
\<close>

definition scripted :: "(string \<times> io_outcome list) list \<Rightarrow> (string \<times> byte list) list \<Rightarrow> string \<Rightarrow> byte list \<Rightarrow> io_outcome" where
  "scripted script hist host buffer =
     (case map_of script host of
        None \<Rightarrow> ConnectFails
      | Some outs \<Rightarrow>
          let n = length (filter (\<lambda>d. fst d = host) hist)
          in if n < length outs then outs ! n else ConnectFails)"

text \<open>
  The network of the examples: \<open>a\<close> and \<open>b\<close> are down, \<open>c\<close> accepts, \<open>r1\<close> redirects to \<open>r2\<close>,
  \<open>r2\<close> to \<open>r3\<close>, \<open>r3\<close> accepts, \<open>reg\<close> answers "failed" once and then "success",
  \<open>short\<close> sends three bytes and \<open>bxd\<close> the response with the damaged header of
  \<open>TestInvalidResponseHeader\<close>.
\<close>

definition demo_script :: "(string \<times> io_outcome list) list" where
  "demo_script =
     [(''c:10051'', replicate 4 (Received (writeZabbixResponse json_success))),
      (''r1:10051'', replicate 4 (Received (writeZabbixResponse (json_redirect ''r2:10051'')))),
      (''r2:10051'', replicate 4 (Received (writeZabbixResponse (json_redirect ''r3:10051'')))),
      (''r3:10051'', replicate 4 (Received (writeZabbixResponse json_success))),
      (''reg:10051'', [Received (writeZabbixResponse json_not_found),
                      Received (writeZabbixResponse json_success)]),
      (''short:10051'', [Received [0x5A, 0x42, 0x58]]),
      (''bxd:10051'', [Received (map of_char ''BXD'' @ [1, 0, 0, 0, 0, 0, 0, 0, 0] @
                                 map of_char json_success)])]"

definition demo_env :: env where
  "demo_env = \<lparr>Marshal = Marshal_plain, Unmarshal = Unmarshal_table, peer = scripted demo_script\<rparr>"

definition sender_data :: Packet where
  "sender_data = \<lparr>Request = ''sender data'', Data = [], Clock = 0, NS = 0, Host = [],
     HostMetadata = []\<rparr>"

definition long_packet :: Packet where
  "long_packet = \<lparr>Request = replicate (2 ^ 32 - 14) CHR ''a'', Data = [], Clock = 0, NS = 0,
     Host = [], HostMetadata = []\<rparr>"

text \<open>
  The senders and states of the examples: a sender for the three addresses \<open>a\<close>, \<open>b\<close>, \<open>c\<close>,
  its state after a first successful send, the same sender with \<open>b\<close> as cached primary, a
  sender for \<open>a\<close> and \<open>b\<close> with \<open>b\<close> as cached primary and without cached primary, a sender
  with an empty list and \<open>a\<close> as cached primary, and a sender for \<open>r1\<close> with a given bound on
  redirects.
\<close>

definition s_abc :: Sender where
  "s_abc = NewSenderHosts [''a:10051'', ''b:10051'', ''c:10051'']"

definition st_abc :: state where
  "st_abc =
     \<lparr>sender = s_abc\<lparr>PrimaryHost := ''c:10051''\<rparr>,
      dials = [(''a:10051'', sendOnce_buffer demo_env sender_data),
               (''b:10051'', sendOnce_buffer demo_env sender_data),
               (''c:10051'', sendOnce_buffer demo_env sender_data)],
      drives = [''a:10051'', ''b:10051'', ''c:10051''],
      assigned = [''c:10051'']\<rparr>"

definition st_b :: state where
  "st_b = fresh (s_abc\<lparr>PrimaryHost := ''b:10051''\<rparr>)"

definition st_ab :: state where
  "st_ab = fresh ((NewSenderHosts [''a:10051'', ''b:10051''])\<lparr>PrimaryHost := ''b:10051''\<rparr>)"

definition st_ab0 :: state where
  "st_ab0 = fresh (NewSenderHosts [''a:10051'', ''b:10051''])"

definition st_a_only :: state where
  "st_a_only = fresh ((NewSenderHosts [])\<lparr>PrimaryHost := ''a:10051''\<rparr>)"

definition st_r1 :: "int \<Rightarrow> state" where
  "st_r1 n = fresh ((NewSender ''r1:10051'')\<lparr>MaxRedirects := n\<rparr>)"


text \<open>The packet \<open>RegisterHost\<close> builds for host and metadata "prueba", as in the tests.\<close>

definition active_checks :: Packet where
  "active_checks = \<lparr>Request = ''active checks'', Data = [], Clock = 0, NS = 0,
     Host = ''prueba'', HostMetadata = ''prueba''\<rparr>"

text \<open>A success response whose first statistic is not a number.\<close>

definition res_bad_count :: Response where
  "res_bad_count = \<lparr>Response = ''success'',
     Info = ''processed: abc; failed: 0; total: 1; seconds spent: 0.000030'', Redirect = None\<rparr>"



section \<open>Framing: the length field\<close>

lemma getHeader_bytes: "getHeader = [0x5A, 0x42, 0x58, 0x44, 0x01]"
  by (simp add: getHeader_def)

lemma ucast_drop_bit_of_nat:
  assumes "n < 2 ^ 32"
  shows "(ucast (drop_bit k (of_nat n :: 32 word)) :: 8 word) = of_nat (n div 2 ^ k mod 256)"
proof -
  have u: "unat (of_nat n :: 32 word) = n"
    using assms by (simp add: unat_of_nat)
  have "unat (drop_bit k (of_nat n :: 32 word)) = n div 2 ^ k"
    by (subst unat_drop_bit_eq) (simp add: u drop_bit_eq_div)
  then have "unat (ucast (drop_bit k (of_nat n :: 32 word)) :: 8 word) = n div 2 ^ k mod 256"
    by (simp add: unsigned_ucast_eq take_bit_eq_mod)
  moreover have "unat (of_nat (n div 2 ^ k mod 256) :: 8 word) = n div 2 ^ k mod 256"
    by (simp add: unat_of_nat)
  ultimately show ?thesis
    by (simp only: word_unat_eq_iff)
qed

lemma replicate_8: "replicate 8 x = [x, x, x, x, x, x, x, x]"
  by (simp add: numeral_eq_Suc)

lemma PutUint32_8: "PutUint32 (replicate 8 0) v =
   [ucast v, ucast (drop_bit 8 v), ucast (drop_bit 16 v), ucast (drop_bit 24 v), 0, 0, 0, 0]"
  unfolding PutUint32_def replicate_8 by (simp add: list_update_code)

lemma le_bytes_Suc8: "le_bytes (Suc (Suc (Suc (Suc (Suc (Suc (Suc (Suc 0)))))))) n =
  [of_nat (n mod 256), of_nat (n div 256 mod 256),
   of_nat (n div 256 div 256 mod 256), of_nat (n div 256 div 256 div 256 mod 256),
   of_nat (n div 256 div 256 div 256 div 256 mod 256),
   of_nat (n div 256 div 256 div 256 div 256 div 256 mod 256),
   of_nat (n div 256 div 256 div 256 div 256 div 256 div 256 mod 256),
   of_nat (n div 256 div 256 div 256 div 256 div 256 div 256 div 256 mod 256)]"
  by simp


lemma le_bytes_8n: "le_bytes 8 n =
  [of_nat (n mod 256), of_nat (n div 256 mod 256),
   of_nat (n div 256 div 256 mod 256), of_nat (n div 256 div 256 div 256 mod 256),
   of_nat (n div 256 div 256 div 256 div 256 mod 256),
   of_nat (n div 256 div 256 div 256 div 256 div 256 mod 256),
   of_nat (n div 256 div 256 div 256 div 256 div 256 div 256 mod 256),
   of_nat (n div 256 div 256 div 256 div 256 div 256 div 256 div 256 mod 256)]"
proof -
  have "(8::nat) = Suc (Suc (Suc (Suc (Suc (Suc (Suc (Suc 0)))))))" by simp
  then show ?thesis by (simp only: le_bytes_Suc8)
qed

lemma DataLen_small:
  assumes "length (Marshal E p) < 2 ^ 32"
  shows "DataLen E p = le_bytes 8 (length (Marshal E p))"
proof -
  let ?n = "length (Marshal E p)"
  have b0: "ucast (of_nat ?n :: 32 word) = (of_nat (?n mod 256) :: 8 word)"
    using ucast_drop_bit_of_nat[OF assms, of 0] by simp
  have b1: "ucast (drop_bit 8 (of_nat ?n :: 32 word)) = (of_nat (?n div 256 mod 256) :: 8 word)"
    using ucast_drop_bit_of_nat[OF assms, of 8] by simp
  have b2: "ucast (drop_bit 16 (of_nat ?n :: 32 word)) = (of_nat (?n div 256 div 256 mod 256) :: 8 word)"
    using ucast_drop_bit_of_nat[OF assms, of 16] by (simp add: div_mult2_eq[symmetric])
  have b3: "ucast (drop_bit 24 (of_nat ?n :: 32 word)) = (of_nat (?n div 256 div 256 div 256 mod 256) :: 8 word)"
    using ucast_drop_bit_of_nat[OF assms, of 24] by (simp add: div_mult2_eq[symmetric])
  have hi: "?n div 256 div 256 div 256 div 256 = 0"
    using assms by (simp add: div_mult2_eq[symmetric])
  show ?thesis
    unfolding DataLen_def Let_def PutUint32_8 le_bytes_8n b0 b1 b2 b3 hi
    by simp
qed

lemma length_Marshal_long_packet: "length (Marshal demo_env long_packet) = 2 ^ 32"
  by (simp add: demo_env_def Marshal_plain_def long_packet_def)

lemma length_Marshal_sender_data: "length (Marshal demo_env sender_data) = 25"
  by (simp add: demo_env_def Marshal_plain_def sender_data_def)

lemma of_nat_2p32: "(of_nat (2 ^ 32) :: 32 word) = 0"
  by (simp add: word_of_nat_eq_0_iff)

text \<open>
  For every packet whose JSON encoding is shorter than \<open>2\<^sup>3\<^sup>2\<close> bytes, the buffer written is
  the five bytes "ZBXD", 0x01, then the length of the JSON encoding as an 8-byte
  little-endian unsigned integer, then the JSON encoding.
\<close>

lemma sendOnce_buffer_below_2p32:
  assumes "length (Marshal E p) < 2 ^ 32"
  shows "sendOnce_buffer E p =
           [0x5A, 0x42, 0x58, 0x44, 0x01] @ le_bytes 8 (length (Marshal E p)) @ Marshal E p"
  using DataLen_small[OF assms] by (simp add: sendOnce_buffer_def getHeader_def)

text \<open>The request "sender data" without metrics: 25 bytes of JSON, length field 25.\<close>

lemma sendOnce_buffer_sender_data:
  "length (Marshal demo_env sender_data) < 2 ^ 32 \<and>
   sendOnce_buffer demo_env sender_data =
     [0x5A, 0x42, 0x58, 0x44, 0x01] @ [25, 0, 0, 0, 0, 0, 0, 0] @ Marshal demo_env sender_data"
proof -
  have h: "length (Marshal demo_env sender_data) < 2 ^ 32"
    unfolding length_Marshal_sender_data by simp
  have "le_bytes 8 (length (Marshal demo_env sender_data)) = [25, 0, 0, 0, 0, 0, 0, 0]"
    unfolding length_Marshal_sender_data le_bytes_8n by simp
  with sendOnce_buffer_below_2p32[OF h] h show ?thesis by simp
qed

text \<open>
  Claim C9 (framing of a request). The claim, like the comment of \<open>DataLen\<close> ("return 8
  bytes with packet length in little endian order") and the helpers of the tests, which
  read and write the field with \<open>Uint64\<close> and \<open>PutUint64\<close>, says that the eight bytes after
  the header are the length of the JSON encoding. \<open>DataLen\<close> converts the length to
  \<open>uint32\<close> and stores four bytes. For the packet whose JSON encoding is \<open>2\<^sup>3\<^sup>2\<close> bytes long
  the length field is eight zero bytes, where the 8-byte little-endian encoding of the
  length is 0, 0, 0, 0, 1, 0, 0, 0: the buffer written is not the one the claim describes.
\<close>

theorem DataLen_truncates_length:
  "length (Marshal demo_env long_packet) = 2 ^ 32 \<and>
   DataLen demo_env long_packet = [0, 0, 0, 0, 0, 0, 0, 0] \<and>
   le_bytes 8 (length (Marshal demo_env long_packet)) = [0, 0, 0, 0, 1, 0, 0, 0] \<and>
   sendOnce_buffer demo_env long_packet \<noteq>
     [0x5A, 0x42, 0x58, 0x44, 0x01] @ le_bytes 8 (length (Marshal demo_env long_packet)) @
     Marshal demo_env long_packet"
proof -
  have d: "DataLen demo_env long_packet = [0, 0, 0, 0, 0, 0, 0, 0]"
    unfolding DataLen_def Let_def length_Marshal_long_packet of_nat_2p32 PutUint32_8 by simp
  have l: "le_bytes 8 (length (Marshal demo_env long_packet)) = [0, 0, 0, 0, 1, 0, 0, 0]"
    unfolding length_Marshal_long_packet le_bytes_8n by simp
  have "sendOnce_buffer demo_env long_packet \<noteq>
     [0x5A, 0x42, 0x58, 0x44, 0x01] @ le_bytes 8 (length (Marshal demo_env long_packet)) @
     Marshal demo_env long_packet"
    using d l by (simp add: sendOnce_buffer_def getHeader_def)
  with d l length_Marshal_long_packet show ?thesis by (intro conjI)
qed

section \<open>Single-attempt transport: malformed responses\<close>

text \<open>
  Claim C10. When the bytes read from the connection are fewer than 13, or are at least 13
  and do not start with the five header bytes, \<open>sendOnce\<close> returns an error of the kind
  ProtocolError: "response too short" in the first case, "got no valid header" in the
  second. The slices \<open>response[:5]\<close> and \<open>response[13:]\<close> are taken only after the length
  check, so no input of this shape makes \<open>sendOnce\<close> panic; it is a total function of the
  bytes read.
\<close>

theorem sendOnce_malformed_response:
  assumes "peer E (dials st) host (sendOnce_buffer E packet) = Received response"
    and "length response < 13 \<or> take 5 response \<noteq> getHeader"
  shows "fst (sendOnce E packet host st) =
           Inl (if length response < 13 then ResponseTooShort host (length response)
                else NoValidHeader (take 5 response)) \<and>
         (\<exists>e. fst (sendOnce E packet host st) = Inl e \<and> error_class e = ProtocolError)"
  using assms by (auto simp: sendOnce_def Let_def)

lemma peer_short:
  "peer demo_env [] ''short:10051'' b = Received [0x5A, 0x42, 0x58]"
  by (simp add: demo_env_def scripted_def demo_script_def)

lemma peer_bxd:
  "peer demo_env [] ''bxd:10051'' b =
     Received (map of_char ''BXD'' @ [1, 0, 0, 0, 0, 0, 0, 0, 0] @ map of_char json_success)"
  by (simp add: demo_env_def scripted_def demo_script_def)

text \<open>
  Two instances: a response of three bytes, and the response of
  \<open>TestInvalidResponseHeader\<close>, which starts with "BXD".
\<close>

theorem sendOnce_malformed_response_witness:
  "peer demo_env (dials (fresh (NewSender ''short:10051''))) ''short:10051''
       (sendOnce_buffer demo_env sender_data) = Received [0x5A, 0x42, 0x58] \<and>
   length [0x5A, 0x42, 0x58 :: byte] < 13 \<and>
   fst (sendOnce demo_env sender_data ''short:10051'' (fresh (NewSender ''short:10051''))) =
     Inl (ResponseTooShort ''short:10051'' 3) \<and>
   peer demo_env (dials (fresh (NewSender ''bxd:10051''))) ''bxd:10051''
       (sendOnce_buffer demo_env sender_data) =
     Received (map of_char ''BXD'' @ [1, 0, 0, 0, 0, 0, 0, 0, 0] @ map of_char json_success) \<and>
   take 5 (map of_char ''BXD'' @ [1, 0, 0, 0, 0, 0, 0, 0, 0 :: byte] @ map of_char json_success)
     \<noteq> getHeader \<and>
   fst (sendOnce demo_env sender_data ''bxd:10051'' (fresh (NewSender ''bxd:10051''))) =
     Inl (NoValidHeader [0x42, 0x58, 0x44, 0x01, 0x00])"
proof -
  let ?s = "fresh (NewSender ''short:10051'')"
  let ?b = "fresh (NewSender ''bxd:10051'')"
  let ?bad = "map of_char ''BXD'' @ [1, 0, 0, 0, 0, 0, 0, 0, 0 :: byte] @ map of_char json_success"
  have p1: "peer demo_env (dials ?s) ''short:10051'' (sendOnce_buffer demo_env sender_data) =
              Received [0x5A, 0x42, 0x58]"
    by (simp add: fresh_def peer_short)
  have l1: "length [0x5A, 0x42, 0x58 :: byte] < 13 \<or> take 5 [0x5A, 0x42, 0x58 :: byte] \<noteq> getHeader"
    by simp
  have p2: "peer demo_env (dials ?b) ''bxd:10051'' (sendOnce_buffer demo_env sender_data) =
              Received ?bad"
    by (simp add: fresh_def peer_bxd)
  have t2: "take 5 ?bad = [0x42, 0x58, 0x44, 0x01, 0x00]"
    by (simp add: json_success_def)
  have l2: "length ?bad < 13 \<or> take 5 ?bad \<noteq> getHeader"
    unfolding t2 by (simp add: getHeader_def)
  have n2: "\<not> length ?bad < 13"
    by (simp add: json_success_def)
  from sendOnce_malformed_response[OF p1 l1] sendOnce_malformed_response[OF p2 l2]
  show ?thesis
    using p1 p2 l2 n2 t2 by simp
qed


section \<open>The drivers: what a send does to the state\<close>

declare sendWithRedirects_loop.simps [simp del]

lemma sendOnce_state:
  "snd (sendOnce E p h st) = st\<lparr>dials := dials st @ [(h, sendOnce_buffer E p)]\<rparr>"
  by (simp add: sendOnce_def Let_def split: io_outcome.splits option.splits)

lemma sendOnce_stateD:
  "sendOnce E p h st = (r, st1) \<Longrightarrow> st1 = st\<lparr>dials := dials st @ [(h, sendOnce_buffer E p)]\<rparr>"
  using sendOnce_state[of E p h st] by simp

lemma loop_Inr_success:
  "sendWithRedirects_loop E p s c rc st = (Inr res, st') \<Longrightarrow> Response res = ''success''"
proof (induction E p s c rc st rule: sendWithRedirects_loop.induct)
  case (1 E p s c rc st)
  from "1.prems" show ?case
    apply (subst (asm) sendWithRedirects_loop.simps)
    using "1.IH" by (auto split: prod.splits sum.splits option.splits if_splits)
qed

lemma loop_dials:
  "\<exists>new. snd (sendWithRedirects_loop E p s c rc st) = st\<lparr>dials := dials st @ new\<rparr> \<and>
     (\<forall>d\<in>set new. fst d = c \<or> CHR '':'' \<in> set (fst d)) \<and>
     (rc \<le> MaxRedirects (sender st) \<longrightarrow> (\<exists>rest. new = (c, sendOnce_buffer E p) # rest))"
proof (induction E p s c rc st rule: sendWithRedirects_loop.induct)
  case (1 E p s c rc st)
  show ?case
  proof (cases "rc \<le> MaxRedirects (sender st)")
    case False
    then have "sendWithRedirects_loop E p s c rc st = (Inl (MaxRedirectsExceeded s), st)"
      by (subst sendWithRedirects_loop.simps) simp
    then show ?thesis using False by (intro exI[of _ "[]"]) simp
  next
    case True
    obtain r st1 where so: "sendOnce E p c st = (r, st1)" by fastforce
    note st1 = sendOnce_stateD[OF so]
    let ?one = "[(c, sendOnce_buffer E p)]"
    have direct: ?thesis if "snd (sendWithRedirects_loop E p s c rc st) = st1"
      using that st1 True by (intro exI[of _ ?one]) simp
    show ?thesis
    proof (cases r)
      case (Inl e)
      then have "sendWithRedirects_loop E p s c rc st = (Inl (SendOnceFailed c e), st1)"
        using True so by (subst sendWithRedirects_loop.simps) simp
      then show ?thesis using direct by simp
    next
      case (Inr res)
      show ?thesis
      proof (cases "redirects_to res (case Redirect res of Some rd \<Rightarrow> Address rd | None \<Rightarrow> [])")
        case False
        then have "snd (sendWithRedirects_loop E p s c rc st) = st1"
          using True so Inr
          by (subst sendWithRedirects_loop.simps)
             (auto simp: redirects_to_def parseHostPort_def split: option.splits if_splits)
        then show ?thesis by (rule direct)
      next
        case rt: True
        then obtain rd where rd: "Redirect res = Some rd" "Address rd \<noteq> []"
            "parseHostPort (Address rd) = Inr (Address rd)" "Response res \<noteq> ''success''"
          by (auto simp: redirects_to_def split: option.splits)
        have colon: "CHR '':'' \<in> set (Address rd)"
          using rd(3) by (auto simp: parseHostPort_def split: if_splits)
        have step: "sendWithRedirects_loop E p s c rc st =
                    sendWithRedirects_loop E p s (Address rd) (rc + 1) st1"
          using True so Inr rd by (subst sendWithRedirects_loop.simps) simp
        from "1.IH"[OF True so[symmetric] Inr rd(4) rd(1) rd(2) rd(3)]
        obtain new where new: "snd (sendWithRedirects_loop E p s (Address rd) (rc + 1) st1) =
              st1\<lparr>dials := dials st1 @ new\<rparr>"
            "\<forall>d\<in>set new. fst d = Address rd \<or> CHR '':'' \<in> set (fst d)"
          by blast
        show ?thesis
          using new colon True unfolding step st1
          by (intro exI[of _ "?one @ new"]) auto
      qed
    qed
  qed
qed


lemma sendWithRedirects_Inr_success:
  "sendWithRedirects E p a st = (Inr res, st') \<Longrightarrow> Response res = ''success''"
  unfolding sendWithRedirects_def by (rule loop_Inr_success)

lemma sendWithRedirects_state:
  "\<exists>new. snd (sendWithRedirects E p a st) = st\<lparr>dials := dials st @ new, drives := drives st @ [a]\<rparr> \<and>
     (\<forall>d\<in>set new. fst d = a \<or> CHR '':'' \<in> set (fst d)) \<and>
     (0 \<le> MaxRedirects (sender st) \<longrightarrow> (\<exists>rest. new = (a, sendOnce_buffer E p) # rest))"
proof -
  let ?st = "st\<lparr>drives := drives st @ [a]\<rparr>"
  from loop_dials[of E p a a 0 ?st]
  obtain new where new: "snd (sendWithRedirects_loop E p a a 0 ?st) = ?st\<lparr>dials := dials ?st @ new\<rparr>"
      "\<forall>d\<in>set new. fst d = a \<or> CHR '':'' \<in> set (fst d)"
      "0 \<le> MaxRedirects (sender ?st) \<longrightarrow> (\<exists>rest. new = (a, sendOnce_buffer E p) # rest)"
    by blast
  show ?thesis
    using new unfolding sendWithRedirects_def by (intro exI[of _ new]) simp
qed


lemma Send_range_Inl:
  "Send_range E p hs st = (Inl e, st') \<Longrightarrow>
     e = AllHostsFailed (length (Hosts (sender st))) \<and>
     (\<exists>new. st' = st\<lparr>dials := dials st @ new, drives := drives st @ hs\<rparr> \<and>
            (\<forall>d\<in>set new. fst d \<in> set hs \<or> CHR '':'' \<in> set (fst d)))"
proof (induction hs arbitrary: st)
  case Nil
  then have "e = AllHostsFailed (length (Hosts (sender st)))" "st' = st\<lparr>dials := dials st @ [], drives := drives st @ []\<rparr>"
    by auto
  then show ?case by (metis empty_iff list.set(1))
next
  case (Cons h hs)
  obtain r1 st1 where d: "sendWithRedirects E p h st = (r1, st1)" by fastforce
  from sendWithRedirects_state[of E p h st] d
  obtain new1 where n1: "st1 = st\<lparr>dials := dials st @ new1, drives := drives st @ [h]\<rparr>"
      "\<forall>d\<in>set new1. fst d = h \<or> CHR '':'' \<in> set (fst d)"
    by auto
  from Cons.prems d obtain e1 where r1: "r1 = Inl e1"
    by (cases r1) auto
  have eq: "Send_range E p hs st1 = (Inl e, st')"
    using Cons.prems d r1 by simp
  from Cons.IH[OF eq] obtain new2 where n2:
      "e = AllHostsFailed (length (Hosts (sender st1)))"
      "st' = st1\<lparr>dials := dials st1 @ new2, drives := drives st1 @ hs\<rparr>"
      "\<forall>d\<in>set new2. fst d \<in> set hs \<or> CHR '':'' \<in> set (fst d)"
    by blast
  have a: "e = AllHostsFailed (length (Hosts (sender st)))"
    using n2(1) n1(1) by simp
  have b: "st' = st\<lparr>dials := dials st @ (new1 @ new2), drives := drives st @ h # hs\<rparr>"
    using n2(2) n1(1) by simp
  have c: "\<forall>d\<in>set (new1 @ new2). fst d \<in> set (h # hs) \<or> CHR '':'' \<in> set (fst d)"
    using n1(2) n2(3) by auto
  show ?case using a b c by blast
qed


lemma Send_range_Inr:
  "Send_range E p hs st = (Inr res, st') \<Longrightarrow>
     \<exists>new k st1. k < length hs \<and>
        st1 = st\<lparr>dials := dials st @ new, drives := drives st @ take (Suc k) hs\<rparr> \<and>
        st' = assignPrimaryHost (hs ! k) st1 \<and>
        (\<forall>d\<in>set new. fst d \<in> set hs \<or> CHR '':'' \<in> set (fst d)) \<and>
        (\<exists>st0. sendWithRedirects E p (hs ! k) st0 = (Inr res, st1))"
proof (induction hs arbitrary: st)
  case Nil
  then show ?case by simp
next
  case (Cons h hs)
  obtain r1 st1 where d: "sendWithRedirects E p h st = (r1, st1)" by fastforce
  from sendWithRedirects_state[of E p h st] d
  obtain new1 where n1: "st1 = st\<lparr>dials := dials st @ new1, drives := drives st @ [h]\<rparr>"
      "\<forall>d\<in>set new1. fst d = h \<or> CHR '':'' \<in> set (fst d)"
    by auto
  show ?case
  proof (cases r1)
    case (Inr res1)
    then have r: "res1 = res" "st' = assignPrimaryHost h st1"
      using Cons.prems d by auto
    have k: "(0::nat) < length (h # hs)" by simp
    have s1: "st1 = st\<lparr>dials := dials st @ new1, drives := drives st @ take (Suc 0) (h # hs)\<rparr>"
      using n1(1) by simp
    have a: "st' = assignPrimaryHost ((h # hs) ! 0) st1" using r by simp
    have c: "\<forall>d\<in>set new1. fst d \<in> set (h # hs) \<or> CHR '':'' \<in> set (fst d)"
      using n1(2) by auto
    have e: "\<exists>st0. sendWithRedirects E p ((h # hs) ! 0) st0 = (Inr res, st1)"
      using d Inr r by auto
    show ?thesis using k s1 a c e by blast
  next
    case (Inl e1)
    have eq: "Send_range E p hs st1 = (Inr res, st')"
      using Cons.prems d Inl by simp
    from Cons.IH[OF eq] obtain new2 k st2 where ih: "k < length hs"
        "st2 = st1\<lparr>dials := dials st1 @ new2, drives := drives st1 @ take (Suc k) hs\<rparr>"
        "st' = assignPrimaryHost (hs ! k) st2"
        "\<forall>d\<in>set new2. fst d \<in> set hs \<or> CHR '':'' \<in> set (fst d)"
        "\<exists>st0. sendWithRedirects E p (hs ! k) st0 = (Inr res, st2)"
      by blast
    have k: "Suc k < length (h # hs)" using ih(1) by simp
    have s2: "st2 = st\<lparr>dials := dials st @ (new1 @ new2),
                drives := drives st @ take (Suc (Suc k)) (h # hs)\<rparr>"
      using ih(2) n1(1) by simp
    have a: "st' = assignPrimaryHost ((h # hs) ! Suc k) st2" using ih(3) by simp
    have c: "\<forall>d\<in>set (new1 @ new2). fst d \<in> set (h # hs) \<or> CHR '':'' \<in> set (fst d)"
      using n1(2) ih(4) by auto
    have e: "\<exists>st0. sendWithRedirects E p ((h # hs) ! Suc k) st0 = (Inr res, st2)"
      using ih(5) by simp
    show ?thesis using k s2 a c e by blast
  qed
qed


lemma Send_cases:
  obtains (hit) res st1 where "PrimaryHost (sender st) \<noteq> []"
      "sendWithRedirects E p (PrimaryHost (sender st)) st = (Inr res, st1)"
      "Send E p st = (Inr res, st1)"
  | (miss) e1 st1 where "PrimaryHost (sender st) \<noteq> []"
      "sendWithRedirects E p (PrimaryHost (sender st)) st = (Inl e1, st1)"
      "Send E p st = Send_range E p (Hosts (sender st)) (assignPrimaryHost [] st1)"
  | (none) "PrimaryHost (sender st) = []"
      "Send E p st = Send_range E p (Hosts (sender st)) st"
proof (cases "PrimaryHost (sender st) = []")
  case True
  then show ?thesis using none by (simp add: Send_def)
next
  case False
  obtain r st1 where d: "sendWithRedirects E p (PrimaryHost (sender st)) st = (r, st1)"
    by fastforce
  from sendWithRedirects_state[of E p "PrimaryHost (sender st)" st] d
  have h: "Hosts (sender st1) = Hosts (sender st)" by auto
  show ?thesis
  proof (cases r)
    case (Inr res)
    then show ?thesis using hit False d by (simp add: Send_def)
  next
    case (Inl e1)
    then show ?thesis using miss[of e1 st1] False d h
      by (simp add: Send_def Let_def assignPrimaryHost_def)
  qed
qed

lemma sendOnce_commute:
  assumes "\<And>st. dials (f st) = dials st"
    and "\<And>st d. f (st\<lparr>dials := d\<rparr>) = (f st)\<lparr>dials := d\<rparr>"
  shows "sendOnce E p h (f st) = (fst (sendOnce E p h st), f (snd (sendOnce E p h st)))"
  by (simp add: sendOnce_def Let_def assms split: io_outcome.splits option.splits)

lemma loop_commute:
  assumes f1: "\<And>st. dials (f st) = dials st"
    and f2: "\<And>st d. f (st\<lparr>dials := d\<rparr>) = (f st)\<lparr>dials := d\<rparr>"
    and f3: "\<And>st. MaxRedirects (sender (f st)) = MaxRedirects (sender st)"
  shows "sendWithRedirects_loop E p s c rc (f st) =
     (fst (sendWithRedirects_loop E p s c rc st), f (snd (sendWithRedirects_loop E p s c rc st)))"
proof (induction E p s c rc st rule: sendWithRedirects_loop.induct)
  case (1 E p s c rc st)
  note unf = sendWithRedirects_loop.simps[of E p s c rc st]
    sendWithRedirects_loop.simps[of E p s c rc "f st"]
  show ?case
  proof (cases "rc \<le> MaxRedirects (sender st)")
    case False
    then show ?thesis by (simp add: unf f3)
  next
    case True
    obtain r st1 where so: "sendOnce E p c st = (r, st1)" by fastforce
    have so': "sendOnce E p c (f st) = (r, f st1)"
      using so sendOnce_commute[of f E p c st, OF f1 f2] by simp
    show ?thesis
    proof (cases r)
      case (Inl e)
      then show ?thesis using True so so' by (simp add: unf f3)
    next
      case (Inr res)
      show ?thesis
      proof (cases "Response res \<noteq> ''success'' \<and> (\<exists>rd b. Redirect res = Some rd \<and> Address rd \<noteq> [] \<and>
                       parseHostPort (Address rd) = Inr b)")
        case False
        then show ?thesis using True so so' Inr
          by (auto simp: unf f3 split: option.splits sum.splits)
      next
        case t: True
        then obtain rd b where rd: "Response res \<noteq> ''success''" "Redirect res = Some rd"
            "Address rd \<noteq> []" "parseHostPort (Address rd) = Inr b"
          by blast
        from "1.IH"[OF True so[symmetric] Inr rd]
        show ?thesis using True so so' Inr rd by (simp add: unf f3)
      qed
    qed
  qed
qed

lemma sendWithRedirects_eq_loop:
  "sendWithRedirects E p a st =
     (fst (sendWithRedirects_loop E p a a 0 st),
      (snd (sendWithRedirects_loop E p a a 0 st))\<lparr>drives := drives st @ [a]\<rparr>)"
  unfolding sendWithRedirects_def
  by (rule loop_commute[where f = "\<lambda>st'. st'\<lparr>drives := drives st @ [a]\<rparr>"]) simp_all

text \<open>
  Assigning the cached primary commutes with a drive, which reads neither that field nor
  the log of assignments; a list of failing drives leaves the sender as it is; and the
  loop over the configured list stops at the first drive that succeeds.
\<close>

lemma sendWithRedirects_frame:
  assumes f1: "\<And>st. dials (f st) = dials st"
    and f2: "\<And>st d. f (st\<lparr>dials := d\<rparr>) = (f st)\<lparr>dials := d\<rparr>"
    and f3: "\<And>st. MaxRedirects (sender (f st)) = MaxRedirects (sender st)"
    and f4: "\<And>st. drives (f st) = drives st"
    and f5: "\<And>st d. f (st\<lparr>drives := d\<rparr>) = (f st)\<lparr>drives := d\<rparr>"
  shows "sendWithRedirects E p a (f st) =
     (fst (sendWithRedirects E p a st), f (snd (sendWithRedirects E p a st)))"
proof -
  have "sendWithRedirects_loop E p a a 0 (f st) =
     (fst (sendWithRedirects_loop E p a a 0 st), f (snd (sendWithRedirects_loop E p a a 0 st)))"
    by (rule loop_commute[OF f1 f2 f3])
  then show ?thesis
    by (simp add: sendWithRedirects_eq_loop f4 f5)
qed

lemma sendWithRedirects_cleared:
  "sendWithRedirects E p a (assignPrimaryHost x st) =
     (fst (sendWithRedirects E p a st), assignPrimaryHost x (snd (sendWithRedirects E p a st)))"
  by (rule sendWithRedirects_frame) (simp_all add: assignPrimaryHost_def)

lemma drives_fail_cleared:
  "drives_fail E p hs (assignPrimaryHost x st) =
     map_option (assignPrimaryHost x) (drives_fail E p hs st)"
proof (induction hs arbitrary: st)
  case Nil
  show ?case by simp
next
  case (Cons h hs)
  obtain r st1 where d: "sendWithRedirects E p h st = (r, st1)" by fastforce
  then have d': "sendWithRedirects E p h (assignPrimaryHost x st) = (r, assignPrimaryHost x st1)"
    by (simp add: sendWithRedirects_cleared)
  show ?case using d d' Cons.IH[of st1] by (cases r) simp_all
qed

lemma drives_fail_state:
  "drives_fail E p hs st = Some st2 \<Longrightarrow>
     sender st2 = sender st \<and> assigned st2 = assigned st \<and> drives st2 = drives st @ hs"
proof (induction hs arbitrary: st)
  case Nil
  then show ?case by simp
next
  case (Cons h hs)
  obtain r st1 where d: "sendWithRedirects E p h st = (r, st1)" by fastforce
  from sendWithRedirects_state[of E p h st] d
  have s1: "sender st1 = sender st" "assigned st1 = assigned st" "drives st1 = drives st @ [h]"
    by auto
  from Cons.prems d obtain e where "r = Inl e" "drives_fail E p hs st1 = Some st2"
    by (cases r) auto
  from Cons.IH[OF this(2)] s1 show ?case by simp
qed

lemma Send_range_all_fail:
  assumes "drives_fail E p hs st = Some st2"
  shows "Send_range E p hs st = (Inl (AllHostsFailed (length (Hosts (sender st)))), st2)"
  using assms
proof (induction hs arbitrary: st)
  case Nil
  then show ?case by simp
next
  case (Cons h hs)
  obtain r st1 where d: "sendWithRedirects E p h st = (r, st1)" by fastforce
  from sendWithRedirects_state[of E p h st] d
  have s1: "sender st1 = sender st" by auto
  from Cons.prems d obtain e where r: "r = Inl e" "drives_fail E p hs st1 = Some st2"
    by (cases r) auto
  from Cons.IH[OF r(2)] d r(1) s1 show ?case by simp
qed

lemma Send_range_first_success:
  assumes "drives_fail E p pre st = Some st2"
    and "sendWithRedirects E p h st2 = (Inr res, st3)"
  shows "Send_range E p (pre @ h # post) st = (Inr res, assignPrimaryHost h st3)"
  using assms
proof (induction pre arbitrary: st)
  case Nil
  then show ?case by simp
next
  case (Cons a pre)
  obtain r st1 where d: "sendWithRedirects E p a st = (r, st1)" by fastforce
  from Cons.prems(1) d obtain e where r: "r = Inl e" "drives_fail E p pre st1 = Some st2"
    by (cases r) auto
  from Cons.IH[OF r(2) Cons.prems(2)] d r(1) show ?case by simp
qed

lemma drives_fail_None:
  "drives_fail E p hs st = None \<Longrightarrow>
     \<exists>pre h post st2 res st3. hs = pre @ h # post \<and> drives_fail E p pre st = Some st2 \<and>
        sendWithRedirects E p h st2 = (Inr res, st3)"
proof (induction hs arbitrary: st)
  case Nil
  then show ?case by simp
next
  case (Cons a hs)
  obtain r st1 where d: "sendWithRedirects E p a st = (r, st1)" by fastforce
  show ?case
  proof (cases r)
    case (Inr res)
    have "a # hs = [] @ a # hs" "drives_fail E p [] st = Some st"
        "sendWithRedirects E p a st = (Inr res, st1)"
      using d Inr by simp_all
    then show ?thesis by blast
  next
    case (Inl e)
    then have "drives_fail E p hs st1 = None" using Cons.prems d by simp
    from Cons.IH[OF this]
    obtain pre h post st2 res st3 where x: "hs = pre @ h # post"
        "drives_fail E p pre st1 = Some st2" "sendWithRedirects E p h st2 = (Inr res, st3)"
      by blast
    have "a # hs = (a # pre) @ h # post" "drives_fail E p (a # pre) st = Some st2"
      using x d Inl by simp_all
    with x(3) show ?thesis by blast
  qed
qed


lemma Send_no_cache_all_fail:
  assumes "PrimaryHost (sender st) = []"
    and "drives_fail E p (Hosts (sender st)) st = Some st2"
  shows "Send E p st = (Inl (AllHostsFailed (length (Hosts (sender st)))), st2)"
  using assms Send_range_all_fail[OF assms(2)] by (simp add: Send_def)

lemma Send_cache_all_fail:
  assumes "PrimaryHost (sender st) \<noteq> []"
    and "sendWithRedirects E p (PrimaryHost (sender st)) st = (Inl e1, st1)"
    and "drives_fail E p (Hosts (sender st)) st1 = Some st2"
  shows "Send E p st =
           (Inl (AllHostsFailed (length (Hosts (sender st)))), assignPrimaryHost [] st2)"
proof -
  from sendWithRedirects_state[of E p "PrimaryHost (sender st)" st] assms(2)
  have h: "Hosts (sender st1) = Hosts (sender st)" by auto
  have "drives_fail E p (Hosts (sender st)) (assignPrimaryHost [] st1) =
          Some (assignPrimaryHost [] st2)"
    using assms(3) by (simp add: drives_fail_cleared)
  from Send_range_all_fail[OF this]
  show ?thesis using assms(1,2) h
    by (simp add: Send_def Let_def) (simp add: assignPrimaryHost_def)
qed

lemma Send_no_cache_success:
  assumes "PrimaryHost (sender st) = []"
    and "Hosts (sender st) = pre @ h # post"
    and "drives_fail E p pre st = Some st2"
    and "sendWithRedirects E p h st2 = (Inr res, st3)"
  shows "Send E p st = (Inr res, assignPrimaryHost h st3)"
  using assms(1,2) Send_range_first_success[OF assms(3,4), of post] by (simp add: Send_def)

lemma Send_cache_miss_success:
  assumes "PrimaryHost (sender st) \<noteq> []"
    and "sendWithRedirects E p (PrimaryHost (sender st)) st = (Inl e1, st1)"
    and "Hosts (sender st) = pre @ h # post"
    and "drives_fail E p pre st1 = Some st2"
    and "sendWithRedirects E p h st2 = (Inr res, st3)"
  shows "Send E p st = (Inr res, assignPrimaryHost h (assignPrimaryHost [] st3))"
proof -
  from sendWithRedirects_state[of E p "PrimaryHost (sender st)" st] assms(2)
  have h: "Hosts (sender st1) = Hosts (sender st)" by auto
  have a: "drives_fail E p pre (assignPrimaryHost [] st1) = Some (assignPrimaryHost [] st2)"
    using assms(4) by (simp add: drives_fail_cleared)
  have b: "sendWithRedirects E p h (assignPrimaryHost [] st2) = (Inr res, assignPrimaryHost [] st3)"
    using assms(5) by (simp add: sendWithRedirects_cleared)
  from Send_range_first_success[OF a b, of post]
  show ?thesis using assms(1,2,3) h
    by (simp add: Send_def Let_def) (simp add: assignPrimaryHost_def)
qed

lemma Send_cache_hit:
  assumes "PrimaryHost (sender st) \<noteq> []"
    and "sendWithRedirects E p (PrimaryHost (sender st)) st = (Inr res, st1)"
  shows "Send E p st = (Inr res, st1)"
  using assms by (simp add: Send_def)

lemma drive_assigned:
  "sendWithRedirects E p a st = (r, st1) \<Longrightarrow> assigned st1 = assigned st"
  using sendWithRedirects_state[of E p a st] by auto

lemma drive_drives:
  "sendWithRedirects E p a st = (r, st1) \<Longrightarrow> drives st1 = drives st @ [a]"
  using sendWithRedirects_state[of E p a st] by auto

section \<open>Evaluating the examples\<close>

lemma wzr_length: "length (writeZabbixResponse j) = 13 + length j"
  by (simp add: writeZabbixResponse_def le_bytes_8n)

lemma wzr_take5: "take 5 (writeZabbixResponse j) = getHeader"
  by (simp add: writeZabbixResponse_def getHeader_def)

lemma wzr_drop13: "drop 13 (writeZabbixResponse j) = map of_char j"
  by (simp add: writeZabbixResponse_def le_bytes_8n)

lemma sendOnce_Received:
  assumes "peer E (dials st) h (sendOnce_buffer E p) = Received (writeZabbixResponse j)"
    and "Unmarshal E (map of_char j) = Some res"
  shows "sendOnce E p h st = (Inr res, st\<lparr>dials := dials st @ [(h, sendOnce_buffer E p)]\<rparr>)"
  using assms by (simp add: sendOnce_def Let_def wzr_length wzr_take5 wzr_drop13)

lemma sendOnce_ConnectFails:
  assumes "peer E (dials st) h (sendOnce_buffer E p) = ConnectFails"
  shows "sendOnce E p h st =
           (Inl (ConnectingTo h), st\<lparr>dials := dials st @ [(h, sendOnce_buffer E p)]\<rparr>)"
  using assms by (simp add: sendOnce_def Let_def)

lemma Unmarshal_success: "Unmarshal demo_env (map of_char json_success) = Some res_success"
  by (simp add: demo_env_def Unmarshal_table_def)

lemma Unmarshal_not_found: "Unmarshal demo_env (map of_char json_not_found) = Some res_not_found"
  by (simp add: demo_env_def Unmarshal_table_def json_success_def json_not_found_def)

lemma Unmarshal_redirect_r2:
  "Unmarshal demo_env (map of_char (json_redirect ''r2:10051'')) = Some (res_redirect ''r2:10051'')"
  by (simp add: demo_env_def Unmarshal_table_def json_success_def json_not_found_def json_redirect_def)

lemma Unmarshal_redirect_r3:
  "Unmarshal demo_env (map of_char (json_redirect ''r3:10051'')) = Some (res_redirect ''r3:10051'')"
  by (simp add: demo_env_def Unmarshal_table_def json_success_def json_not_found_def json_redirect_def)


lemma drive_connect_fails:
  assumes "0 \<le> MaxRedirects (sender st)"
    and "peer E (dials st) a (sendOnce_buffer E p) = ConnectFails"
  shows "sendWithRedirects E p a st =
           (Inl (SendOnceFailed a (ConnectingTo a)),
            st\<lparr>dials := dials st @ [(a, sendOnce_buffer E p)], drives := drives st @ [a]\<rparr>)"
  using assms
  by (simp add: sendWithRedirects_eq_loop sendWithRedirects_loop.simps[of E p a a 0 st]
        sendOnce_ConnectFails)

lemma drive_success:
  assumes "0 \<le> MaxRedirects (sender st)"
    and "peer E (dials st) a (sendOnce_buffer E p) = Received (writeZabbixResponse j)"
    and "Unmarshal E (map of_char j) = Some res"
    and "Response res = ''success''"
  shows "sendWithRedirects E p a st =
           (Inr res, st\<lparr>dials := dials st @ [(a, sendOnce_buffer E p)], drives := drives st @ [a]\<rparr>)"
  using assms
  by (simp add: sendWithRedirects_eq_loop sendWithRedirects_loop.simps[of E p a a 0 st]
        sendOnce_Received)

lemma drive_rejected:
  assumes "0 \<le> MaxRedirects (sender st)"
    and "peer E (dials st) a (sendOnce_buffer E p) = Received (writeZabbixResponse j)"
    and "Unmarshal E (map of_char j) = Some res"
    and "Response res \<noteq> ''success''"
    and "Redirect res = None"
  shows "sendWithRedirects E p a st =
           (Inl (FailedWithoutRedirect a (Response res)),
            st\<lparr>dials := dials st @ [(a, sendOnce_buffer E p)], drives := drives st @ [a]\<rparr>)"
  using assms
  by (simp add: sendWithRedirects_eq_loop sendWithRedirects_loop.simps[of E p a a 0 st]
        sendOnce_Received)

lemma peer_down:
  "peer demo_env hist ''a:10051'' buf = ConnectFails"
  "peer demo_env hist ''b:10051'' buf = ConnectFails"
  "peer demo_env hist [] buf = ConnectFails"
  by (simp_all add: demo_env_def scripted_def demo_script_def)

lemma peer_c:
  "length (filter (\<lambda>d. fst d = ''c:10051'') hist) < 4 \<Longrightarrow>
     peer demo_env hist ''c:10051'' buf = Received (writeZabbixResponse json_success)"
  by (simp add: demo_env_def scripted_def demo_script_def)

lemma normalizeHost_demo:
  "normalizeHost ''a:10051'' = ''a:10051''"
  "normalizeHost ''b:10051'' = ''b:10051''"
  "normalizeHost ''c:10051'' = ''c:10051''"
  "normalizeHost ''r1:10051'' = ''r1:10051''"
  "normalizeHost ''reg:10051'' = ''reg:10051''"
  "normalizeHost [] = []"
  by (simp_all add: normalizeHost_def TrimSpace_def spaceWidth_def asciiSpace_def)

lemma s_abc_fields:
  "Hosts s_abc = [''a:10051'', ''b:10051'', ''c:10051'']" "PrimaryHost s_abc = []"
  "MaxRedirects s_abc = 3"
  by (simp_all add: s_abc_def NewSenderHosts_def normalizeHost_demo defaultMaxRedirects_def)

lemmas demo_eval = Send_def fresh_def drive_connect_fails drive_success drive_rejected
  peer_down peer_c Unmarshal_success Unmarshal_not_found res_success_def res_not_found_def
  assignPrimaryHost_def

lemma Send_abc_first:
  "Send demo_env sender_data (fresh s_abc) = (Inr res_success, st_abc)"
  by (simp add: demo_eval s_abc_fields st_abc_def)

lemma Send_abc_second:
  "Send demo_env sender_data st_abc =
     (Inr res_success,
      st_abc\<lparr>dials := dials st_abc @ [(''c:10051'', sendOnce_buffer demo_env sender_data)],
             drives := drives st_abc @ [''c:10051'']\<rparr>)"
  by (simp add: demo_eval s_abc_fields st_abc_def)

lemma Send_b:
  "Send demo_env sender_data st_b =
     (Inr res_success,
      \<lparr>sender = s_abc\<lparr>PrimaryHost := ''c:10051''\<rparr>,
       dials = [(''b:10051'', sendOnce_buffer demo_env sender_data),
                (''a:10051'', sendOnce_buffer demo_env sender_data),
                (''b:10051'', sendOnce_buffer demo_env sender_data),
                (''c:10051'', sendOnce_buffer demo_env sender_data)],
       drives = [''b:10051'', ''a:10051'', ''b:10051'', ''c:10051''],
       assigned = [[], ''c:10051'']\<rparr>)"
  by (simp add: demo_eval s_abc_fields st_b_def)

lemma Send_ab:
  "Send demo_env sender_data st_ab =
     (Inl (AllHostsFailed 2),
      \<lparr>sender = (NewSenderHosts [''a:10051'', ''b:10051''])\<lparr>PrimaryHost := []\<rparr>,
       dials = [(''b:10051'', sendOnce_buffer demo_env sender_data),
                (''a:10051'', sendOnce_buffer demo_env sender_data),
                (''b:10051'', sendOnce_buffer demo_env sender_data)],
       drives = [''b:10051'', ''a:10051'', ''b:10051''],
       assigned = [[]]\<rparr>)"
  by (simp add: demo_eval st_ab_def NewSenderHosts_def normalizeHost_demo defaultMaxRedirects_def)

lemma peer_r:
  "length (filter (\<lambda>d. fst d = ''r1:10051'') hist) < 4 \<Longrightarrow>
     peer demo_env hist ''r1:10051'' buf = Received (writeZabbixResponse (json_redirect ''r2:10051''))"
  "length (filter (\<lambda>d. fst d = ''r2:10051'') hist) < 4 \<Longrightarrow>
     peer demo_env hist ''r2:10051'' buf = Received (writeZabbixResponse (json_redirect ''r3:10051''))"
  "length (filter (\<lambda>d. fst d = ''r3:10051'') hist) < 4 \<Longrightarrow>
     peer demo_env hist ''r3:10051'' buf = Received (writeZabbixResponse json_success)"
  by (simp_all add: demo_env_def scripted_def demo_script_def)

lemma redirects_to_res_redirect:
  "redirects_to (res_redirect ''r2:10051'') ''r2:10051''"
  "redirects_to (res_redirect ''r3:10051'') ''r3:10051''"
  by (simp_all add: redirects_to_def res_redirect_def parseHostPort_def)

lemma st_r1_fields:
  "sender (st_r1 n) = (NewSender ''r1:10051'')\<lparr>MaxRedirects := n\<rparr>" "dials (st_r1 n) = []"
  "drives (st_r1 n) = []" "assigned (st_r1 n) = []" "MaxRedirects (sender (st_r1 n)) = n"
  by (simp_all add: st_r1_def fresh_def)

lemma chain_r1_r2:
  "redirect_chain demo_env sender_data ''r1:10051'' [''r2:10051''] (st_r1 n) =
     Some ((st_r1 n)\<lparr>dials := [(''r1:10051'', sendOnce_buffer demo_env sender_data)]\<rparr>)"
  by (simp add: sendOnce_Received peer_r Unmarshal_redirect_r2 redirects_to_res_redirect st_r1_fields)

lemma chain_r1_r2_r3:
  "redirect_chain demo_env sender_data ''r1:10051'' [''r2:10051'', ''r3:10051''] (st_r1 n) =
     Some ((st_r1 n)\<lparr>dials := [(''r1:10051'', sendOnce_buffer demo_env sender_data),
                                (''r2:10051'', sendOnce_buffer demo_env sender_data)]\<rparr>)"
  by (simp add: sendOnce_Received peer_r Unmarshal_redirect_r2 Unmarshal_redirect_r3
        redirects_to_res_redirect st_r1_fields)

lemma st_abc_fields:
  "PrimaryHost (sender st_abc) = ''c:10051''"
  "Hosts (sender st_abc) = [''a:10051'', ''b:10051'', ''c:10051'']"
  "MaxRedirects (sender st_abc) = 3"
  "drives st_abc = [''a:10051'', ''b:10051'', ''c:10051'']"
  "assigned st_abc = [''c:10051'']"
  by (simp_all add: st_abc_def s_abc_fields)

lemma st_b_fields:
  "PrimaryHost (sender st_b) = ''b:10051''"
  "Hosts (sender st_b) = [''a:10051'', ''b:10051'', ''c:10051'']"
  "MaxRedirects (sender st_b) = 3"
  "dials st_b = []" "drives st_b = []" "assigned st_b = []"
  by (simp_all add: st_b_def fresh_def s_abc_fields)

lemma drive_b_fails:
  "isl (fst (sendWithRedirects demo_env sender_data ''b:10051'' st_b))"
  by (simp add: drive_connect_fails peer_down st_b_fields)




lemma peer_reg:
  "peer demo_env [] ''reg:10051'' buf = Received (writeZabbixResponse json_not_found)"
  "peer demo_env [(''reg:10051'', b)] ''reg:10051'' buf = Received (writeZabbixResponse json_success)"
  by (simp_all add: demo_env_def scripted_def demo_script_def)

lemma drive_r1:
  "sendWithRedirects demo_env sender_data ''r1:10051'' (st_r1 3) =
     (Inr res_success,
      (st_r1 3)\<lparr>dials := [(''r1:10051'', sendOnce_buffer demo_env sender_data),
                            (''r2:10051'', sendOnce_buffer demo_env sender_data),
                            (''r3:10051'', sendOnce_buffer demo_env sender_data)],
                  drives := [''r1:10051'']\<rparr>)"
  by (simp add: sendWithRedirects_eq_loop sendWithRedirects_loop.simps sendOnce_Received peer_r
        Unmarshal_success Unmarshal_redirect_r2 Unmarshal_redirect_r3 res_redirect_def
        res_success_def parseHostPort_def st_r1_fields)

lemma Send_r1:
  "Send demo_env sender_data (st_r1 3) =
     (Inr res_success,
      \<lparr>sender = (NewSender ''r1:10051'')\<lparr>MaxRedirects := 3, PrimaryHost := ''r1:10051''\<rparr>,
       dials = [(''r1:10051'', sendOnce_buffer demo_env sender_data),
                (''r2:10051'', sendOnce_buffer demo_env sender_data),
                (''r3:10051'', sendOnce_buffer demo_env sender_data)],
       drives = [''r1:10051''],
       assigned = [''r1:10051'']\<rparr>)"
proof -
  have f: "PrimaryHost (sender (st_r1 3)) = []" "Hosts (sender (st_r1 3)) = [''r1:10051'']"
    by (simp_all add: st_r1_fields NewSender_def normalizeHost_demo)
  show ?thesis
    by (simp add: Send_def f drive_r1 assignPrimaryHost_def) (simp add: st_r1_def fresh_def)
qed

lemma drive_a_down:
  "0 \<le> MaxRedirects (sender st) \<Longrightarrow>
   sendWithRedirects demo_env p ''a:10051'' st =
     (Inl (SendOnceFailed ''a:10051'' (ConnectingTo ''a:10051'')),
      st\<lparr>dials := dials st @ [(''a:10051'', sendOnce_buffer demo_env p)],
         drives := drives st @ [''a:10051'']\<rparr>)"
  by (simp add: drive_connect_fails peer_down)

lemma drive_b_down:
  "0 \<le> MaxRedirects (sender st) \<Longrightarrow>
   sendWithRedirects demo_env p ''b:10051'' st =
     (Inl (SendOnceFailed ''b:10051'' (ConnectingTo ''b:10051'')),
      st\<lparr>dials := dials st @ [(''b:10051'', sendOnce_buffer demo_env p)],
         drives := drives st @ [''b:10051'']\<rparr>)"
  by (simp add: drive_connect_fails peer_down)

lemma drives_fail_a_b:
  "0 \<le> MaxRedirects (sender st) \<Longrightarrow>
   drives_fail demo_env p [''a:10051'', ''b:10051''] st =
     Some (st\<lparr>dials := dials st @ [(''a:10051'', sendOnce_buffer demo_env p),
                                   (''b:10051'', sendOnce_buffer demo_env p)],
              drives := drives st @ [''a:10051'', ''b:10051'']\<rparr>)"
  by (simp add: drive_a_down drive_b_down)

lemma drive_c_up:
  "0 \<le> MaxRedirects (sender st) \<Longrightarrow>
   length (filter (\<lambda>d. fst d = ''c:10051'') (dials st)) < 4 \<Longrightarrow>
   sendWithRedirects demo_env p ''c:10051'' st =
     (Inr res_success,
      st\<lparr>dials := dials st @ [(''c:10051'', sendOnce_buffer demo_env p)],
         drives := drives st @ [''c:10051'']\<rparr>)"
  by (simp add: drive_success peer_c Unmarshal_success res_success_def)

lemma st_ab_fields:
  "PrimaryHost (sender st_ab) = ''b:10051''"
  "Hosts (sender st_ab) = [''a:10051'', ''b:10051'']"
  "MaxRedirects (sender st_ab) = 3"
  "dials st_ab = []" "drives st_ab = []" "assigned st_ab = []"
  by (simp_all add: st_ab_def fresh_def NewSenderHosts_def normalizeHost_demo defaultMaxRedirects_def)

lemma st_ab0_fields:
  "PrimaryHost (sender st_ab0) = []"
  "Hosts (sender st_ab0) = [''a:10051'', ''b:10051'']"
  "MaxRedirects (sender st_ab0) = 3"
  "dials st_ab0 = []" "drives st_ab0 = []" "assigned st_ab0 = []"
  by (simp_all add: st_ab0_def fresh_def NewSenderHosts_def normalizeHost_demo defaultMaxRedirects_def)

lemma st_a_only_fields:
  "PrimaryHost (sender st_a_only) = ''a:10051''"
  "Hosts (sender st_a_only) = []"
  "MaxRedirects (sender st_a_only) = 3"
  "dials st_a_only = []" "drives st_a_only = []" "assigned st_a_only = []"
  by (simp_all add: st_a_only_def fresh_def NewSenderHosts_def defaultMaxRedirects_def)

lemma fresh_s_abc_fields:
  "PrimaryHost (sender (fresh s_abc)) = []"
  "Hosts (sender (fresh s_abc)) = [''a:10051'', ''b:10051'', ''c:10051'']"
  "MaxRedirects (sender (fresh s_abc)) = 3"
  "dials (fresh s_abc) = []" "drives (fresh s_abc) = []" "assigned (fresh s_abc) = []"
  by (simp_all add: fresh_def s_abc_fields)

section \<open>The redirect limit\<close>

lemma loop_chain:
  assumes "redirect_chain E p c bs st = Some st1"
    and "rc + int (length bs) \<le> MaxRedirects (sender st)"
  shows "sendWithRedirects_loop E p s c rc st =
           sendWithRedirects_loop E p s (last (c # bs)) (rc + int (length bs)) st1 \<and>
         sender st1 = sender st"
  using assms
proof (induction bs arbitrary: c rc st)
  case Nil
  then show ?case by simp
next
  case (Cons b bs)
  obtain r st' where so: "sendOnce E p c st = (r, st')" by fastforce
  from Cons.prems(1) so obtain res where res: "r = Inr res" "redirects_to res b"
      "redirect_chain E p b bs st' = Some st1"
    by (cases r) (auto split: if_splits)
  from res(2) obtain rd where rd: "Response res \<noteq> ''success''" "Redirect res = Some rd"
      "Address rd \<noteq> []" "parseHostPort (Address rd) = Inr b"
    by (auto simp: redirects_to_def split: option.splits)
  have snd: "sender st' = sender st"
    using sendOnce_stateD[OF so] by simp
  have le: "rc \<le> MaxRedirects (sender st)" using Cons.prems(2) by simp
  have step: "sendWithRedirects_loop E p s c rc st = sendWithRedirects_loop E p s b (rc + 1) st'"
    using le so res(1) rd by (simp add: sendWithRedirects_loop.simps[of E p s c rc st])
  have "rc + 1 + int (length bs) \<le> MaxRedirects (sender st')"
    using Cons.prems(2) snd by simp
  from Cons.IH[OF res(3) this]
  show ?case using step snd by (simp add: add.assoc)
qed

text \<open>
  Claim C2. For a drive from one starting address \<open>a\<close> with \<open>MaxRedirects = k\<close>, \<open>k\<close> being the
  length of \<open>bs\<close>: when the first \<open>k\<close> exchanges are answered by a chain of \<open>k\<close> redirects
  through the addresses \<open>bs\<close>, then a "success" response to the next exchange is returned
  as the result of the drive, and one more redirect response (the chain is then \<open>k + 1\<close>
  redirects long) ends the drive with "max redirects exceeded", of kind
  RedirectLimitExceeded. The drive returns in both cases: the function is total.
  \<open>MaxRedirects\<close> is below the largest 64-bit \<open>int\<close>, 9223372036854775807, so that the
  counter of the Go loop does not wrap around.
\<close>

theorem sendWithRedirects_limit:
  assumes "MaxRedirects (sender st) = int (length bs)"
    and "MaxRedirects (sender st) < 9223372036854775807"
    and "redirect_chain E p a bs st = Some st1"
    and "sendOnce E p (last (a # bs)) st1 = (Inr res, st2)"
  shows "(Response res = ''success'' \<longrightarrow>
            sendWithRedirects E p a st = (Inr res, st2\<lparr>drives := drives st @ [a]\<rparr>)) \<and>
         (\<forall>b. redirects_to res b \<longrightarrow>
            sendWithRedirects E p a st =
              (Inl (MaxRedirectsExceeded a), st2\<lparr>drives := drives st @ [a]\<rparr>) \<and>
            error_class (MaxRedirectsExceeded a) = RedirectLimitExceeded)"
proof -
  define k where "k = int (length bs)"
  define z where "z = last (a # bs)"
  from loop_chain[OF assms(3), of 0 a] assms(1)
  have chain: "sendWithRedirects_loop E p a a 0 st = sendWithRedirects_loop E p a z k st1"
    and snd: "sender st1 = sender st"
    by (simp_all add: k_def z_def)
  have so: "sendOnce E p z st1 = (Inr res, st2)"
    using assms(4) by (simp add: z_def)
  have snd2: "sender st2 = sender st"
    using sendOnce_stateD[OF so] snd by simp
  have le: "k \<le> MaxRedirects (sender st1)" using assms(1) snd by (simp add: k_def)
  have ok: "sendWithRedirects_loop E p a z k st1 = (Inr res, st2)" if "Response res = ''success''"
    using le so that by (simp add: sendWithRedirects_loop.simps[of E p a z k st1])
  have over: "sendWithRedirects_loop E p a z k st1 = (Inl (MaxRedirectsExceeded a), st2)"
    if "redirects_to res b" for b
  proof -
    from that obtain rd where rd: "Response res \<noteq> ''success''" "Redirect res = Some rd"
        "Address rd \<noteq> []" "parseHostPort (Address rd) = Inr b"
      by (auto simp: redirects_to_def split: option.splits)
    have "sendWithRedirects_loop E p a z k st1 = sendWithRedirects_loop E p a b (k + 1) st2"
      using le so rd by (simp add: sendWithRedirects_loop.simps[of E p a z k st1])
    also have "\<dots> = (Inl (MaxRedirectsExceeded a), st2)"
    proof -
      have "\<not> k + 1 \<le> MaxRedirects (sender st2)"
        using assms(1) snd2 by (simp add: k_def)
      then show ?thesis
        by (simp add: sendWithRedirects_loop.simps[of E p a b "k + 1" st2])
    qed
    finally show ?thesis .
  qed
  show ?thesis
    using ok over chain by (simp add: sendWithRedirects_eq_loop)
qed

text \<open>
  The chain \<open>r1\<close>, \<open>r2\<close>, \<open>r3\<close> of the examples: with \<open>MaxRedirects = 2\<close> the two redirects are
  followed and the success of \<open>r3\<close> is returned; with \<open>MaxRedirects = 1\<close> the second redirect
  exceeds the limit.
\<close>

theorem sendWithRedirects_limit_witness:
  "MaxRedirects (sender (st_r1 2)) = int (length [''r2:10051'', ''r3:10051'']) \<and>
   MaxRedirects (sender (st_r1 2)) < 9223372036854775807 \<and>
   redirect_chain demo_env sender_data ''r1:10051'' [''r2:10051'', ''r3:10051''] (st_r1 2) =
     Some ((st_r1 2)\<lparr>dials := [(''r1:10051'', sendOnce_buffer demo_env sender_data),
                                (''r2:10051'', sendOnce_buffer demo_env sender_data)]\<rparr>) \<and>
   sendWithRedirects demo_env sender_data ''r1:10051'' (st_r1 2) =
     (Inr res_success,
      (st_r1 2)\<lparr>dials := [(''r1:10051'', sendOnce_buffer demo_env sender_data),
                            (''r2:10051'', sendOnce_buffer demo_env sender_data),
                            (''r3:10051'', sendOnce_buffer demo_env sender_data)],
                  drives := [''r1:10051'']\<rparr>) \<and>
   MaxRedirects (sender (st_r1 1)) = int (length [''r2:10051'']) \<and>
   MaxRedirects (sender (st_r1 1)) < 9223372036854775807 \<and>
   redirect_chain demo_env sender_data ''r1:10051'' [''r2:10051''] (st_r1 1) =
     Some ((st_r1 1)\<lparr>dials := [(''r1:10051'', sendOnce_buffer demo_env sender_data)]\<rparr>) \<and>
   redirects_to (res_redirect ''r3:10051'') ''r3:10051'' \<and>
   sendWithRedirects demo_env sender_data ''r1:10051'' (st_r1 1) =
     (Inl (MaxRedirectsExceeded ''r1:10051''),
      (st_r1 1)\<lparr>dials := [(''r1:10051'', sendOnce_buffer demo_env sender_data),
                            (''r2:10051'', sendOnce_buffer demo_env sender_data)],
                  drives := [''r1:10051'']\<rparr>)"
proof -
  let ?buf = "sendOnce_buffer demo_env sender_data"
  let ?st2 = "(st_r1 2)\<lparr>dials := [(''r1:10051'', ?buf), (''r2:10051'', ?buf)]\<rparr>"
  let ?st1 = "(st_r1 1)\<lparr>dials := [(''r1:10051'', ?buf)]\<rparr>"
  have m2: "MaxRedirects (sender (st_r1 2)) = int (length [''r2:10051'', ''r3:10051''])"
    by (simp add: st_r1_fields)
  have m1: "MaxRedirects (sender (st_r1 1)) = int (length [''r2:10051''])"
    by (simp add: st_r1_fields)
  have b2: "MaxRedirects (sender (st_r1 2)) < 9223372036854775807"
    by (simp add: st_r1_fields)
  have b1: "MaxRedirects (sender (st_r1 1)) < 9223372036854775807"
    by (simp add: st_r1_fields)
  have last2: "sendOnce demo_env sender_data (last [''r1:10051'', ''r2:10051'', ''r3:10051'']) ?st2 =
      (Inr res_success, ?st2\<lparr>dials := dials ?st2 @ [(''r3:10051'', ?buf)]\<rparr>)"
    by (simp add: sendOnce_Received peer_r Unmarshal_success)
  have last1: "sendOnce demo_env sender_data (last [''r1:10051'', ''r2:10051'']) ?st1 =
      (Inr (res_redirect ''r3:10051''), ?st1\<lparr>dials := dials ?st1 @ [(''r2:10051'', ?buf)]\<rparr>)"
    by (simp add: sendOnce_Received peer_r Unmarshal_redirect_r3)
  have ok: "Response res_success = ''success''" by (simp add: res_success_def)
  from sendWithRedirects_limit[OF m2 b2 chain_r1_r2_r3 last2] ok
  have a: "sendWithRedirects demo_env sender_data ''r1:10051'' (st_r1 2) =
     (Inr res_success, (?st2\<lparr>dials := dials ?st2 @ [(''r3:10051'', ?buf)]\<rparr>)
          \<lparr>drives := drives (st_r1 2) @ [''r1:10051'']\<rparr>)"
    by blast
  from sendWithRedirects_limit[OF m1 b1 chain_r1_r2 last1] redirects_to_res_redirect(2)
  have b: "sendWithRedirects demo_env sender_data ''r1:10051'' (st_r1 1) =
     (Inl (MaxRedirectsExceeded ''r1:10051''), (?st1\<lparr>dials := dials ?st1 @ [(''r2:10051'', ?buf)]\<rparr>)
          \<lparr>drives := drives (st_r1 1) @ [''r1:10051'']\<rparr>)"
    by blast
  show ?thesis
    using m2 m1 chain_r1_r2 chain_r1_r2_r3 redirects_to_res_redirect(2) a b
    by (simp add: st_r1_fields)
qed

section \<open>The cached primary address\<close>

text \<open>
  Claim C3. For a send with result \<open>r\<close> and final state \<open>st'\<close>:
  \<^item> after a successful send the cached primary is the starting address of the last drive,
    which is the drive that returned the response (it is a \<open>startHost\<close>, never an address
    that only a redirect led to);
  \<^item> when a cached primary is set, the first drive of the send starts there, whatever the
    order of the list, and so does the first connection (as soon as \<open>MaxRedirects\<close> is not
    negative, so that a drive dials at all);
  \<^item> when the drive from the cached primary fails, the same send goes on with the
    configured list from its first address, in order, up to the first address whose drive
    succeeds or to the end: the position of the cached address in the list is tried again.
\<close>

theorem Send_cached_primary:
  assumes "Send E p st = (r, st')"
  shows "(\<forall>res. r = Inr res \<longrightarrow>
            last (drives st') = PrimaryHost (sender st') \<and>
            (\<exists>st0 st1. sendWithRedirects E p (PrimaryHost (sender st')) st0 = (Inr res, st1) \<and>
                dials st1 = dials st' \<and> drives st1 = drives st')) \<and>
         (PrimaryHost (sender st) \<noteq> [] \<longrightarrow>
            (\<exists>rest. drives st' = drives st @ PrimaryHost (sender st) # rest) \<and>
            (0 \<le> MaxRedirects (sender st) \<longrightarrow>
               (\<exists>rest. dials st' =
                  dials st @ (PrimaryHost (sender st), sendOnce_buffer E p) # rest))) \<and>
         (PrimaryHost (sender st) \<noteq> [] \<and>
          isl (fst (sendWithRedirects E p (PrimaryHost (sender st)) st)) \<longrightarrow>
            (\<exists>k. k \<le> length (Hosts (sender st)) \<and>
               drives st' = drives st @ PrimaryHost (sender st) # take k (Hosts (sender st)) \<and>
               (if isl r then k = length (Hosts (sender st))
                else 0 < k \<and> PrimaryHost (sender st') = Hosts (sender st) ! (k - 1))))"
proof (cases rule: Send_cases[of st E p])
  case (hit res st1)
  let ?c = "PrimaryHost (sender st)"
  from sendWithRedirects_state[of E p ?c st] hit(2)
  obtain new where s1: "st1 = st\<lparr>dials := dials st @ new, drives := drives st @ [?c]\<rparr>"
      "0 \<le> MaxRedirects (sender st) \<longrightarrow> (\<exists>rest. new = (?c, sendOnce_buffer E p) # rest)"
    by auto
  have rs: "r = Inr res" "st' = st1" using hit(3) assms by auto
  have a: "last (drives st') = PrimaryHost (sender st')" using rs s1 by simp
  have b: "sendWithRedirects E p (PrimaryHost (sender st')) st = (Inr res, st')"
    using hit(2) rs s1 by simp
  have c: "\<exists>rest. drives st' = drives st @ ?c # rest" using rs s1 by simp
  have d: "0 \<le> MaxRedirects (sender st) \<longrightarrow>
             (\<exists>rest. dials st' = dials st @ (?c, sendOnce_buffer E p) # rest)"
    using rs s1 by auto
  have e: "\<not> isl (fst (sendWithRedirects E p ?c st))" using hit(2) by simp
  show ?thesis using a b c d e rs by blast
next
  case (miss e1 st1)
  let ?c = "PrimaryHost (sender st)"
  let ?hs = "Hosts (sender st)"
  from sendWithRedirects_state[of E p ?c st] miss(2)
  obtain new where s1: "st1 = st\<lparr>dials := dials st @ new, drives := drives st @ [?c]\<rparr>"
      "0 \<le> MaxRedirects (sender st) \<longrightarrow> (\<exists>rest. new = (?c, sendOnce_buffer E p) # rest)"
    by auto
  let ?st2 = "assignPrimaryHost [] st1"
  have range: "Send_range E p ?hs ?st2 = (r, st')"
    using miss(3) assms by simp
  have d2: "dials ?st2 = dials st @ new" "drives ?st2 = drives st @ [?c]"
    using s1 by (simp_all add: assignPrimaryHost_def)
  show ?thesis
  proof (cases r)
    case (Inl e)
    from Send_range_Inl[OF range[unfolded Inl]]
    obtain new2 where n2: "st' = ?st2\<lparr>dials := dials ?st2 @ new2, drives := drives ?st2 @ ?hs\<rparr>"
      by blast
    have c: "drives st' = drives st @ ?c # take (length ?hs) ?hs"
      using n2 d2 by simp
    have d: "dials st' = dials st @ new @ new2"
      using n2 d2 by simp
    have d': "0 \<le> MaxRedirects (sender st) \<longrightarrow>
             (\<exists>rest. dials st' = dials st @ (?c, sendOnce_buffer E p) # rest)"
      using d s1(2) by auto
    show ?thesis using c d' Inl by auto
  next
    case (Inr res)
    from Send_range_Inr[OF range[unfolded Inr]]
    obtain new2 k st3 where n2: "k < length ?hs"
        "st3 = ?st2\<lparr>dials := dials ?st2 @ new2, drives := drives ?st2 @ take (Suc k) ?hs\<rparr>"
        "st' = assignPrimaryHost (?hs ! k) st3"
        "\<exists>st0. sendWithRedirects E p (?hs ! k) st0 = (Inr res, st3)"
      by blast
    have ph: "PrimaryHost (sender st') = ?hs ! k"
      using n2(3) by (simp add: assignPrimaryHost_def)
    have dr: "drives st' = drives st @ ?c # take (Suc k) ?hs"
      using n2(2,3) d2 by (simp add: assignPrimaryHost_def)
    have a: "last (drives st') = PrimaryHost (sender st')"
      using dr ph n2(1) by (simp add: take_Suc_conv_app_nth)
    have b: "\<exists>st0 st1. sendWithRedirects E p (PrimaryHost (sender st')) st0 = (Inr res, st1) \<and>
                dials st1 = dials st' \<and> drives st1 = drives st'"
      using n2(3,4) ph by (auto simp: assignPrimaryHost_def)
    have d: "dials st' = dials st @ new @ new2"
      using n2(2,3) d2 by (simp add: assignPrimaryHost_def)
    have d': "0 \<le> MaxRedirects (sender st) \<longrightarrow>
             (\<exists>rest. dials st' = dials st @ (?c, sendOnce_buffer E p) # rest)"
      using d s1(2) by auto
    have k: "Suc k \<le> length ?hs" "0 < Suc k" "PrimaryHost (sender st') = ?hs ! (Suc k - 1)"
      using n2(1) ph by simp_all
    have c3: "\<exists>k. k \<le> length ?hs \<and> drives st' = drives st @ ?c # take k ?hs \<and>
               (if isl r then k = length ?hs
                else 0 < k \<and> PrimaryHost (sender st') = ?hs ! (k - 1))"
      using k dr Inr by (intro exI[of _ "Suc k"]) simp
    show ?thesis using a b dr d' c3 Inr by auto
  qed
next
  case none
  let ?hs = "Hosts (sender st)"
  have range: "Send_range E p ?hs st = (r, st')"
    using none(2) assms by simp
  show ?thesis
  proof (cases r)
    case (Inl e)
    then show ?thesis using none(1) by simp
  next
    case (Inr res)
    from Send_range_Inr[OF range[unfolded Inr]]
    obtain new2 k st3 where n2: "k < length ?hs"
        "st3 = st\<lparr>dials := dials st @ new2, drives := drives st @ take (Suc k) ?hs\<rparr>"
        "st' = assignPrimaryHost (?hs ! k) st3"
        "\<exists>st0. sendWithRedirects E p (?hs ! k) st0 = (Inr res, st3)"
      by blast
    have ph: "PrimaryHost (sender st') = ?hs ! k"
      using n2(3) by (simp add: assignPrimaryHost_def)
    have dr: "drives st' = drives st @ take (Suc k) ?hs"
      using n2(2,3) by (simp add: assignPrimaryHost_def)
    have a: "last (drives st') = PrimaryHost (sender st')"
      using dr ph n2(1) by (simp add: take_Suc_conv_app_nth)
    have b: "\<exists>st0 st1. sendWithRedirects E p (PrimaryHost (sender st')) st0 = (Inr res, st1) \<and>
                dials st1 = dials st' \<and> drives st1 = drives st'"
      using n2(3,4) ph by (auto simp: assignPrimaryHost_def)
    show ?thesis using a b none(1) Inr by auto
  qed
qed

text \<open>
  The list \<open>a\<close>, \<open>b\<close>, \<open>c\<close> where only \<open>c\<close> accepts: the first send caches \<open>c\<close>, the second
  dials \<open>c\<close> first; with \<open>b\<close> cached and down, the send tries \<open>b\<close>, then \<open>a\<close>, \<open>b\<close>, \<open>c\<close>.
\<close>

theorem Send_cached_primary_witness:
  "Send demo_env sender_data (fresh s_abc) = (Inr res_success, st_abc) \<and>
   PrimaryHost (sender st_abc) = ''c:10051'' \<and>
   last (drives st_abc) = ''c:10051'' \<and>
   0 \<le> MaxRedirects (sender st_abc) \<and>
   (\<exists>rest. dials (snd (Send demo_env sender_data st_abc)) =
      dials st_abc @ (''c:10051'', sendOnce_buffer demo_env sender_data) # rest) \<and>
   PrimaryHost (sender st_b) = ''b:10051'' \<and>
   isl (fst (sendWithRedirects demo_env sender_data ''b:10051'' st_b)) \<and>
   drives (snd (Send demo_env sender_data st_b)) =
     ''b:10051'' # take 3 [''a:10051'', ''b:10051'', ''c:10051''] \<and>
   PrimaryHost (sender (snd (Send demo_env sender_data st_b))) = ''c:10051''"
proof -
  let ?buf = "sendOnce_buffer demo_env sender_data"
  from Send_cached_primary[OF Send_abc_first]
  have a: "last (drives st_abc) = PrimaryHost (sender st_abc)"
    by blast
  have ne: "PrimaryHost (sender st_abc) \<noteq> []" by (simp add: st_abc_fields)
  have mr: "0 \<le> MaxRedirects (sender st_abc)" by (simp add: st_abc_fields)
  from Send_cached_primary[OF Send_abc_second] ne mr
  have b: "\<exists>rest. dials (snd (Send demo_env sender_data st_abc)) =
      dials st_abc @ (PrimaryHost (sender st_abc), ?buf) # rest"
    by (simp add: Send_abc_second)
  have neb: "PrimaryHost (sender st_b) \<noteq> []" by (simp add: st_b_fields)
  from Send_cached_primary[OF Send_b] neb drive_b_fails
  obtain k where k: "k \<le> length (Hosts (sender st_b))"
      "drives (snd (Send demo_env sender_data st_b)) =
         drives st_b @ PrimaryHost (sender st_b) # take k (Hosts (sender st_b))"
    by (auto simp: Send_b st_b_fields)
  have c: "drives (snd (Send demo_env sender_data st_b)) =
     ''b:10051'' # take 3 [''a:10051'', ''b:10051'', ''c:10051'']"
    by (simp add: Send_b)
  show ?thesis
    using a b c Send_abc_first drive_b_fails mr
    by (simp add: st_abc_fields st_b_fields Send_b s_abc_fields)
qed

section \<open>Assignments to the cached primary address\<close>

text \<open>
  Claim C5 (assignments to the cached primary within one send), as amended. What one call
  of \<open>Send\<close> assigns to the field is determined by its drives, in five cases. When the
  drive from the cached primary succeeds, nothing is assigned. When no primary is cached
  and the drive from every address of the list fails, nothing is assigned. When the drive
  from the cached primary fails and the drive from every address of the list fails, the
  field is cleared and nothing else is assigned. When no primary is cached and the drive
  from \<open>h\<close> is the first of the list to succeed, the field is set to \<open>h\<close> and nothing else
  is assigned. When the drive from the cached primary fails and the drive from \<open>h\<close> is
  the first of the list to succeed, the field is cleared and then set to \<open>h\<close>. The cases
  are exhaustive: a list whose drives do not all fail has a first address whose drive
  succeeds. So the field is assigned zero times, once or twice, never more.
\<close>

theorem Send_assignments:
  "(PrimaryHost (sender st) \<noteq> [] \<and>
    sendWithRedirects E p (PrimaryHost (sender st)) st = (Inr res, st1) \<longrightarrow>
      assigned (snd (Send E p st)) = assigned st) \<and>
   (PrimaryHost (sender st) = [] \<and> drives_fail E p (Hosts (sender st)) st = Some st2 \<longrightarrow>
      assigned (snd (Send E p st)) = assigned st) \<and>
   (PrimaryHost (sender st) \<noteq> [] \<and>
    sendWithRedirects E p (PrimaryHost (sender st)) st = (Inl e1, st1) \<and>
    drives_fail E p (Hosts (sender st)) st1 = Some st2 \<longrightarrow>
      assigned (snd (Send E p st)) = assigned st @ [[]]) \<and>
   (PrimaryHost (sender st) = [] \<and> Hosts (sender st) = pre @ h # post \<and>
    drives_fail E p pre st = Some st2 \<and> sendWithRedirects E p h st2 = (Inr res, st3) \<longrightarrow>
      assigned (snd (Send E p st)) = assigned st @ [h]) \<and>
   (PrimaryHost (sender st) \<noteq> [] \<and>
    sendWithRedirects E p (PrimaryHost (sender st)) st = (Inl e1, st1) \<and>
    Hosts (sender st) = pre @ h # post \<and>
    drives_fail E p pre st1 = Some st2 \<and> sendWithRedirects E p h st2 = (Inr res, st3) \<longrightarrow>
      assigned (snd (Send E p st)) = assigned st @ [[], h]) \<and>
   (drives_fail E p hs st0 = None \<longrightarrow>
      (\<exists>pre' h' post' st2' res' st3'. hs = pre' @ h' # post' \<and>
         drives_fail E p pre' st0 = Some st2' \<and>
         sendWithRedirects E p h' st2' = (Inr res', st3'))) \<and>
   (\<exists>new. assigned (snd (Send E p st)) = assigned st @ new \<and> length new \<le> 2)"
proof -
  let ?c = "PrimaryHost (sender st)"
  let ?hs = "Hosts (sender st)"
  let ?a = "assigned (snd (Send E p st))"
  have hit: "?a = assigned st"
    if "?c \<noteq> []" "sendWithRedirects E p ?c st = (Inr res, st1)" for res st1
    using Send_cache_hit[OF that] drive_assigned[OF that(2)] by simp
  have none_fail: "?a = assigned st"
    if "?c = []" "drives_fail E p ?hs st = Some st2" for st2
    using Send_no_cache_all_fail[OF that] drives_fail_state[OF that(2)] by simp
  have miss_fail: "?a = assigned st @ [[]]"
    if "?c \<noteq> []" "sendWithRedirects E p ?c st = (Inl e1, st1)"
      "drives_fail E p ?hs st1 = Some st2" for e1 st1 st2
    using Send_cache_all_fail[OF that] drives_fail_state[OF that(3)] drive_assigned[OF that(2)]
    by (simp add: assignPrimaryHost_def)
  have none_ok: "?a = assigned st @ [h]"
    if "?c = []" "?hs = pre @ h # post" "drives_fail E p pre st = Some st2"
      "sendWithRedirects E p h st2 = (Inr res, st3)" for pre h post st2 res st3
    using Send_no_cache_success[OF that] drives_fail_state[OF that(3)] drive_assigned[OF that(4)]
    by (simp add: assignPrimaryHost_def)
  have miss_ok: "?a = assigned st @ [[], h]"
    if "?c \<noteq> []" "sendWithRedirects E p ?c st = (Inl e1, st1)" "?hs = pre @ h # post"
      "drives_fail E p pre st1 = Some st2" "sendWithRedirects E p h st2 = (Inr res, st3)"
    for e1 st1 pre h post st2 res st3
    using Send_cache_miss_success[OF that] drives_fail_state[OF that(4)]
      drive_assigned[OF that(2)] drive_assigned[OF that(5)]
    by (simp add: assignPrimaryHost_def)
  have bound: "\<exists>new. ?a = assigned st @ new \<and> length new \<le> 2"
  proof (cases "?c = []")
    case True
    show ?thesis
    proof (cases "drives_fail E p ?hs st")
      case (Some st2)
      from none_fail[OF True Some] show ?thesis by simp
    next
      case None
      from drives_fail_None[OF None]
      obtain pre h post st2 res st3 where x: "?hs = pre @ h # post"
          "drives_fail E p pre st = Some st2" "sendWithRedirects E p h st2 = (Inr res, st3)"
        by blast
      from none_ok[OF True x] show ?thesis by simp
    qed
  next
    case False
    obtain r st1 where d: "sendWithRedirects E p ?c st = (r, st1)" by fastforce
    show ?thesis
    proof (cases r)
      case (Inr res)
      from hit[OF False d[unfolded Inr]] show ?thesis by simp
    next
      case (Inl e1)
      note d' = d[unfolded Inl]
      show ?thesis
      proof (cases "drives_fail E p ?hs st1")
        case (Some st2)
        from miss_fail[OF False d' Some] show ?thesis by simp
      next
        case None
        from drives_fail_None[OF None]
        obtain pre h post st2 res st3 where x: "?hs = pre @ h # post"
            "drives_fail E p pre st1 = Some st2" "sendWithRedirects E p h st2 = (Inr res, st3)"
          by blast
        from miss_ok[OF False d' x] show ?thesis by simp
      qed
    qed
  qed
  show ?thesis
  proof (intro conjI impI)
    assume "?c \<noteq> [] \<and> sendWithRedirects E p ?c st = (Inr res, st1)"
    then show "?a = assigned st" using hit by blast
  next
    assume "?c = [] \<and> drives_fail E p ?hs st = Some st2"
    then show "?a = assigned st" using none_fail by blast
  next
    assume "?c \<noteq> [] \<and> sendWithRedirects E p ?c st = (Inl e1, st1) \<and>
      drives_fail E p ?hs st1 = Some st2"
    then show "?a = assigned st @ [[]]" using miss_fail by blast
  next
    assume "?c = [] \<and> ?hs = pre @ h # post \<and> drives_fail E p pre st = Some st2 \<and>
      sendWithRedirects E p h st2 = (Inr res, st3)"
    then show "?a = assigned st @ [h]" using none_ok by blast
  next
    assume "?c \<noteq> [] \<and> sendWithRedirects E p ?c st = (Inl e1, st1) \<and>
      ?hs = pre @ h # post \<and> drives_fail E p pre st1 = Some st2 \<and>
      sendWithRedirects E p h st2 = (Inr res, st3)"
    then show "?a = assigned st @ [[], h]" using miss_ok by blast
  next
    assume "drives_fail E p hs st0 = None"
    then show "\<exists>pre' h' post' st2' res' st3'. hs = pre' @ h' # post' \<and>
         drives_fail E p pre' st0 = Some st2' \<and>
         sendWithRedirects E p h' st2' = (Inr res', st3')"
      by (rule drives_fail_None)
  next
    show "\<exists>new. ?a = assigned st @ new \<and> length new \<le> 2" by (rule bound)
  qed
qed

text \<open>
  The five cases in the network of the examples, where \<open>a\<close> and \<open>b\<close> are down and \<open>c\<close>
  accepts: \<open>c\<close> cached; the list \<open>a\<close>, \<open>b\<close> without cached primary; the list \<open>a\<close>, \<open>b\<close>
  with \<open>b\<close> cached; the list \<open>a\<close>, \<open>b\<close>, \<open>c\<close> without cached primary; the list \<open>a\<close>, \<open>b\<close>,
  \<open>c\<close> with \<open>b\<close> cached.
\<close>

theorem Send_assignments_witness:
  "PrimaryHost (sender st_abc) = ''c:10051'' \<and>
   fst (sendWithRedirects demo_env sender_data ''c:10051'' st_abc) = Inr res_success \<and>
   assigned (snd (Send demo_env sender_data st_abc)) = assigned st_abc \<and>
   PrimaryHost (sender st_ab0) = [] \<and>
   drives_fail demo_env sender_data (Hosts (sender st_ab0)) st_ab0 =
     Some (st_ab0\<lparr>dials := [(''a:10051'', sendOnce_buffer demo_env sender_data),
                               (''b:10051'', sendOnce_buffer demo_env sender_data)],
                     drives := [''a:10051'', ''b:10051'']\<rparr>) \<and>
   assigned (snd (Send demo_env sender_data st_ab0)) = assigned st_ab0 \<and>
   PrimaryHost (sender st_ab) = ''b:10051'' \<and>
   isl (fst (sendWithRedirects demo_env sender_data ''b:10051'' st_ab)) \<and>
   drives_fail demo_env sender_data (Hosts (sender st_ab))
       (snd (sendWithRedirects demo_env sender_data ''b:10051'' st_ab)) =
     Some (st_ab\<lparr>dials := [(''b:10051'', sendOnce_buffer demo_env sender_data),
                              (''a:10051'', sendOnce_buffer demo_env sender_data),
                              (''b:10051'', sendOnce_buffer demo_env sender_data)],
                    drives := [''b:10051'', ''a:10051'', ''b:10051'']\<rparr>) \<and>
   assigned (snd (Send demo_env sender_data st_ab)) = assigned st_ab @ [[]] \<and>
   PrimaryHost (sender (fresh s_abc)) = [] \<and>
   Hosts (sender (fresh s_abc)) = [''a:10051'', ''b:10051''] @ ''c:10051'' # [] \<and>
   fst (sendWithRedirects demo_env sender_data ''c:10051''
          (the (drives_fail demo_env sender_data [''a:10051'', ''b:10051''] (fresh s_abc)))) =
     Inr res_success \<and>
   drives_fail demo_env sender_data (Hosts (sender (fresh s_abc))) (fresh s_abc) = None \<and>
   assigned (snd (Send demo_env sender_data (fresh s_abc))) =
     assigned (fresh s_abc) @ [''c:10051''] \<and>
   PrimaryHost (sender st_b) = ''b:10051'' \<and>
   isl (fst (sendWithRedirects demo_env sender_data ''b:10051'' st_b)) \<and>
   Hosts (sender st_b) = [''a:10051'', ''b:10051''] @ ''c:10051'' # [] \<and>
   assigned (snd (Send demo_env sender_data st_b)) = assigned st_b @ [[], ''c:10051'']"
proof -
  let ?buf = "sendOnce_buffer demo_env sender_data"
  let ?eb = "SendOnceFailed ''b:10051'' (ConnectingTo ''b:10051'')"
  txt \<open>the cached drive succeeds\<close>
  let ?h1 = "st_abc\<lparr>dials := dials st_abc @ [(''c:10051'', ?buf)],
                    drives := drives st_abc @ [''c:10051'']\<rparr>"
  have hc: "PrimaryHost (sender st_abc) \<noteq> []" by (simp add: st_abc_fields)
  have hd: "sendWithRedirects demo_env sender_data (PrimaryHost (sender st_abc)) st_abc =
      (Inr res_success, ?h1)"
    using drive_c_up[of st_abc sender_data] by (simp add: st_abc_def s_abc_fields)
  from Send_assignments[where st=st_abc and E=demo_env and p=sender_data and res=res_success and ?st1.0="?h1"] hc hd
  have hit: "assigned (snd (Send demo_env sender_data st_abc)) = assigned st_abc"
    by blast
  txt \<open>no cached primary, every address fails\<close>
  let ?s2 = "st_ab0\<lparr>dials := [(''a:10051'', ?buf), (''b:10051'', ?buf)],
                    drives := [''a:10051'', ''b:10051'']\<rparr>"
  have n0: "PrimaryHost (sender st_ab0) = []" by (simp add: st_ab0_fields)
  have f0: "drives_fail demo_env sender_data (Hosts (sender st_ab0)) st_ab0 = Some ?s2"
    using drives_fail_a_b[of st_ab0 sender_data] by (simp add: st_ab0_fields)
  from Send_assignments[where st=st_ab0 and E=demo_env and p=sender_data and ?st2.0="?s2"] n0 f0
  have none_fail: "assigned (snd (Send demo_env sender_data st_ab0)) = assigned st_ab0"
    by blast
  txt \<open>the cached drive fails, every address fails\<close>
  let ?t1 = "st_ab\<lparr>dials := [(''b:10051'', ?buf)], drives := [''b:10051'']\<rparr>"
  let ?t3 = "st_ab\<lparr>dials := [(''b:10051'', ?buf), (''a:10051'', ?buf), (''b:10051'', ?buf)],
                   drives := [''b:10051'', ''a:10051'', ''b:10051'']\<rparr>"
  have n1: "PrimaryHost (sender st_ab) \<noteq> []" by (simp add: st_ab_fields)
  have d1: "sendWithRedirects demo_env sender_data (PrimaryHost (sender st_ab)) st_ab = (Inl ?eb, ?t1)"
    by (simp add: st_ab_fields drive_b_down)
  have f1: "drives_fail demo_env sender_data (Hosts (sender st_ab)) ?t1 = Some ?t3"
    using drives_fail_a_b[of ?t1 sender_data] by (simp add: st_ab_fields)
  from Send_assignments[where st=st_ab and E=demo_env and p=sender_data and ?st2.0="?t3" and ?e1.0="?eb" and ?st1.0="?t1"] n1 d1 f1
  have miss_fail: "assigned (snd (Send demo_env sender_data st_ab)) = assigned st_ab @ [[]]"
    by blast
  txt \<open>no cached primary, the third address accepts\<close>
  let ?f = "fresh s_abc"
  let ?u2 = "?f\<lparr>dials := [(''a:10051'', ?buf), (''b:10051'', ?buf)],
                drives := [''a:10051'', ''b:10051'']\<rparr>"
  let ?u3 = "?u2\<lparr>dials := dials ?u2 @ [(''c:10051'', ?buf)],
                 drives := drives ?u2 @ [''c:10051'']\<rparr>"
  have n2: "PrimaryHost (sender ?f) = []" by (simp add: fresh_s_abc_fields)
  have l2: "Hosts (sender ?f) = [''a:10051'', ''b:10051''] @ ''c:10051'' # []"
    by (simp add: fresh_s_abc_fields)
  have f2: "drives_fail demo_env sender_data [''a:10051'', ''b:10051''] ?f = Some ?u2"
    using drives_fail_a_b[of ?f sender_data] by (simp add: fresh_s_abc_fields)
  have d2: "sendWithRedirects demo_env sender_data ''c:10051'' ?u2 = (Inr res_success, ?u3)"
    by (rule drive_c_up) (simp_all add: fresh_s_abc_fields)
  from Send_assignments[where st="?f" and E=demo_env and p=sender_data and res=res_success
      and ?st2.0="?u2" and pre="[''a:10051'', ''b:10051'']" and h="''c:10051''" and post="[]"
      and ?st3.0="?u3"] n2 l2 f2 d2
  have none_ok: "assigned (snd (Send demo_env sender_data ?f)) = assigned ?f @ [''c:10051'']"
    by blast
  have x2: "drives_fail demo_env sender_data (Hosts (sender ?f)) ?f = None"
    by (simp add: fresh_s_abc_fields drive_a_down drive_b_down drive_c_up)
  from Send_assignments[where E=demo_env and p=sender_data and hs="Hosts (sender ?f)"
      and ?st0.0="?f"] x2
  have ex: "\<exists>pre' h' post' st2' res' st3'. Hosts (sender ?f) = pre' @ h' # post' \<and>
         drives_fail demo_env sender_data pre' ?f = Some st2' \<and>
         sendWithRedirects demo_env sender_data h' st2' = (Inr res', st3')"
    by blast
  txt \<open>the cached drive fails, the third address accepts\<close>
  let ?v1 = "st_b\<lparr>dials := [(''b:10051'', ?buf)], drives := [''b:10051'']\<rparr>"
  let ?v2 = "?v1\<lparr>dials := dials ?v1 @ [(''a:10051'', ?buf), (''b:10051'', ?buf)],
                 drives := drives ?v1 @ [''a:10051'', ''b:10051'']\<rparr>"
  let ?v3 = "?v2\<lparr>dials := dials ?v2 @ [(''c:10051'', ?buf)],
                 drives := drives ?v2 @ [''c:10051'']\<rparr>"
  have n3: "PrimaryHost (sender st_b) \<noteq> []" by (simp add: st_b_fields)
  have d3: "sendWithRedirects demo_env sender_data (PrimaryHost (sender st_b)) st_b = (Inl ?eb, ?v1)"
    by (simp add: st_b_fields drive_b_down)
  have l3: "Hosts (sender st_b) = [''a:10051'', ''b:10051''] @ ''c:10051'' # []"
    by (simp add: st_b_fields)
  have f3: "drives_fail demo_env sender_data [''a:10051'', ''b:10051''] ?v1 = Some ?v2"
    using drives_fail_a_b[of ?v1 sender_data] by (simp add: st_b_fields)
  have d4: "sendWithRedirects demo_env sender_data ''c:10051'' ?v2 = (Inr res_success, ?v3)"
    by (rule drive_c_up) (simp_all add: st_b_fields)
  from Send_assignments[where st=st_b and E=demo_env and p=sender_data and res=res_success
      and ?st1.0="?v1" and ?st2.0="?v2" and ?e1.0="?eb"
      and pre="[''a:10051'', ''b:10051'']" and h="''c:10051''" and post="[]" and ?st3.0="?v3"] n3 d3 l3 f3 d4
  have miss_ok: "assigned (snd (Send demo_env sender_data st_b)) = assigned st_b @ [[], ''c:10051'']"
    by blast
  show ?thesis
    using hit none_fail miss_fail none_ok miss_ok hd f0 d1 f1 l2 f2 d2 d3 l3 x2
    by (simp add: st_abc_fields st_ab0_fields st_ab_fields fresh_s_abc_fields st_b_fields)
qed

text \<open>
  The claim as stated, exactly one assignment in every send, fails in both directions: the
  second send of the sender for \<open>a\<close>, \<open>b\<close>, \<open>c\<close> finds \<open>c\<close> cached and assigns nothing; the
  send with \<open>b\<close> cached and down assigns twice.
\<close>

theorem Send_assignments_counterexample:
  "length (assigned (snd (Send demo_env sender_data st_abc))) - length (assigned st_abc) = 0 \<and>
   length (assigned (snd (Send demo_env sender_data st_b))) - length (assigned st_b) = 2"
  by (simp add: Send_abc_second Send_b st_abc_fields st_b_fields)

section \<open>Failure on every address\<close>

text \<open>
  Claim C6 (the count in "all hosts failed"), as amended. When no primary is cached and
  the drive from every address of the configured list fails, and when the drive from the
  cached primary fails and then the drive from every address of the list fails, \<open>Send\<close>
  fails with "all N hosts failed", of kind AllHostsFailedError, where N is the length of
  the configured list; in the second case it has started one drive more than N, the one
  from the cached primary, which N does not count. Conversely \<open>Send\<close> fails with no other
  error, and when it fails it has started one drive from the cached primary, if one was
  set, and one from every address of the list, in order.
\<close>

theorem Send_all_hosts_failed:
  "(PrimaryHost (sender st) = [] \<and> drives_fail E p (Hosts (sender st)) st = Some st2 \<longrightarrow>
      Send E p st = (Inl (AllHostsFailed (length (Hosts (sender st)))), st2) \<and>
      drives st2 = drives st @ Hosts (sender st)) \<and>
   (PrimaryHost (sender st) \<noteq> [] \<and>
    sendWithRedirects E p (PrimaryHost (sender st)) st = (Inl e1, st1) \<and>
    drives_fail E p (Hosts (sender st)) st1 = Some st3 \<longrightarrow>
      Send E p st =
        (Inl (AllHostsFailed (length (Hosts (sender st)))), assignPrimaryHost [] st3) \<and>
      drives st3 = drives st @ PrimaryHost (sender st) # Hosts (sender st)) \<and>
   error_class (AllHostsFailed (length (Hosts (sender st)))) = AllHostsFailedError \<and>
   (\<forall>e st'. Send E p st = (Inl e, st') \<longrightarrow>
      e = AllHostsFailed (length (Hosts (sender st))) \<and>
      drives st' = drives st @
        (if PrimaryHost (sender st) \<noteq> [] then [PrimaryHost (sender st)] else []) @
        Hosts (sender st))"
proof -
  have a: "Send E p st = (Inl (AllHostsFailed (length (Hosts (sender st)))), st2) \<and>
      drives st2 = drives st @ Hosts (sender st)"
    if "PrimaryHost (sender st) = []" "drives_fail E p (Hosts (sender st)) st = Some st2"
    using Send_no_cache_all_fail[OF that] drives_fail_state[OF that(2)] by simp
  have b: "Send E p st =
        (Inl (AllHostsFailed (length (Hosts (sender st)))), assignPrimaryHost [] st3) \<and>
      drives st3 = drives st @ PrimaryHost (sender st) # Hosts (sender st)"
    if "PrimaryHost (sender st) \<noteq> []"
      "sendWithRedirects E p (PrimaryHost (sender st)) st = (Inl e1, st1)"
      "drives_fail E p (Hosts (sender st)) st1 = Some st3"
    using Send_cache_all_fail[OF that] drives_fail_state[OF that(3)] drive_drives[OF that(2)]
    by simp
  have c: "e = AllHostsFailed (length (Hosts (sender st))) \<and>
      drives st' = drives st @
        (if PrimaryHost (sender st) \<noteq> [] then [PrimaryHost (sender st)] else []) @
        Hosts (sender st)"
    if f: "Send E p st = (Inl e, st')" for e st'
  proof (cases rule: Send_cases[of st E p])
    case (hit res st1)
    then show ?thesis using f by simp
  next
    case (miss e1 st1)
    from sendWithRedirects_state[of E p "PrimaryHost (sender st)" st] miss(2)
    have s1: "Hosts (sender st1) = Hosts (sender st)"
        "drives st1 = drives st @ [PrimaryHost (sender st)]" by auto
    from miss(3) f
    have "Send_range E p (Hosts (sender st)) (assignPrimaryHost [] st1) = (Inl e, st')" by simp
    from Send_range_Inl[OF this] s1 miss(1)
    show ?thesis by (auto simp: assignPrimaryHost_def)
  next
    case none
    from none(2) f
    have "Send_range E p (Hosts (sender st)) st = (Inl e, st')" by simp
    from Send_range_Inl[OF this] none(1)
    show ?thesis by auto
  qed
  show ?thesis
  proof (intro conjI impI allI)
    assume h: "PrimaryHost (sender st) = [] \<and> drives_fail E p (Hosts (sender st)) st = Some st2"
    then show "Send E p st = (Inl (AllHostsFailed (length (Hosts (sender st)))), st2)"
      and "drives st2 = drives st @ Hosts (sender st)"
      using a by blast+
  next
    assume h: "PrimaryHost (sender st) \<noteq> [] \<and>
      sendWithRedirects E p (PrimaryHost (sender st)) st = (Inl e1, st1) \<and>
      drives_fail E p (Hosts (sender st)) st1 = Some st3"
    then show "Send E p st =
        (Inl (AllHostsFailed (length (Hosts (sender st)))), assignPrimaryHost [] st3)"
      and "drives st3 = drives st @ PrimaryHost (sender st) # Hosts (sender st)"
      using b by blast+
  next
    show "error_class (AllHostsFailed (length (Hosts (sender st)))) = AllHostsFailedError"
      by simp
  next
    fix e st' assume "Send E p st = (Inl e, st')"
    then show "e = AllHostsFailed (length (Hosts (sender st)))"
      and "drives st' = drives st @
        (if PrimaryHost (sender st) \<noteq> [] then [PrimaryHost (sender st)] else []) @
        Hosts (sender st)"
      using c by blast+
  qed
qed

text \<open>
  The list \<open>a\<close>, \<open>b\<close> with both addresses down: without cached primary, two drives and the
  error reports 2; with \<open>b\<close> cached, three drives and the error reports 2.
\<close>

theorem Send_all_hosts_failed_witness:
  "PrimaryHost (sender st_ab0) = [] \<and>
   drives_fail demo_env sender_data (Hosts (sender st_ab0)) st_ab0 =
     Some (st_ab0\<lparr>dials := [(''a:10051'', sendOnce_buffer demo_env sender_data),
                               (''b:10051'', sendOnce_buffer demo_env sender_data)],
                     drives := [''a:10051'', ''b:10051'']\<rparr>) \<and>
   Send demo_env sender_data st_ab0 =
     (Inl (AllHostsFailed 2),
      st_ab0\<lparr>dials := [(''a:10051'', sendOnce_buffer demo_env sender_data),
                        (''b:10051'', sendOnce_buffer demo_env sender_data)],
              drives := [''a:10051'', ''b:10051'']\<rparr>) \<and>
   PrimaryHost (sender st_ab) = ''b:10051'' \<and>
   sendWithRedirects demo_env sender_data ''b:10051'' st_ab =
     (Inl (SendOnceFailed ''b:10051'' (ConnectingTo ''b:10051'')),
      st_ab\<lparr>dials := [(''b:10051'', sendOnce_buffer demo_env sender_data)],
             drives := [''b:10051'']\<rparr>) \<and>
   drives_fail demo_env sender_data (Hosts (sender st_ab))
       (st_ab\<lparr>dials := [(''b:10051'', sendOnce_buffer demo_env sender_data)],
              drives := [''b:10051'']\<rparr>) =
     Some (st_ab\<lparr>dials := [(''b:10051'', sendOnce_buffer demo_env sender_data),
                              (''a:10051'', sendOnce_buffer demo_env sender_data),
                              (''b:10051'', sendOnce_buffer demo_env sender_data)],
                    drives := [''b:10051'', ''a:10051'', ''b:10051'']\<rparr>) \<and>
   Send demo_env sender_data st_ab =
     (Inl (AllHostsFailed 2),
      assignPrimaryHost []
        (st_ab\<lparr>dials := [(''b:10051'', sendOnce_buffer demo_env sender_data),
                          (''a:10051'', sendOnce_buffer demo_env sender_data),
                          (''b:10051'', sendOnce_buffer demo_env sender_data)],
                drives := [''b:10051'', ''a:10051'', ''b:10051'']\<rparr>))"
proof -
  let ?buf = "sendOnce_buffer demo_env sender_data"
  let ?e = "SendOnceFailed ''b:10051'' (ConnectingTo ''b:10051'')"
  let ?s2 = "st_ab0\<lparr>dials := [(''a:10051'', ?buf), (''b:10051'', ?buf)],
                    drives := [''a:10051'', ''b:10051'']\<rparr>"
  let ?t1 = "st_ab\<lparr>dials := [(''b:10051'', ?buf)], drives := [''b:10051'']\<rparr>"
  let ?t3 = "st_ab\<lparr>dials := [(''b:10051'', ?buf), (''a:10051'', ?buf), (''b:10051'', ?buf)],
                   drives := [''b:10051'', ''a:10051'', ''b:10051'']\<rparr>"
  have n0: "PrimaryHost (sender st_ab0) = []" by (simp add: st_ab0_fields)
  have f0: "drives_fail demo_env sender_data (Hosts (sender st_ab0)) st_ab0 = Some ?s2"
    using drives_fail_a_b[of st_ab0 sender_data] by (simp add: st_ab0_fields)
  have n1: "PrimaryHost (sender st_ab) \<noteq> []" by (simp add: st_ab_fields)
  have d1: "sendWithRedirects demo_env sender_data (PrimaryHost (sender st_ab)) st_ab = (Inl ?e, ?t1)"
    by (simp add: st_ab_fields drive_b_down)
  have f1: "drives_fail demo_env sender_data (Hosts (sender st_ab)) ?t1 = Some ?t3"
    using drives_fail_a_b[of ?t1 sender_data] by (simp add: st_ab_fields)
  from Send_all_hosts_failed[of st_ab0 demo_env sender_data ?s2] n0 f0
  have a: "Send demo_env sender_data st_ab0 =
      (Inl (AllHostsFailed (length (Hosts (sender st_ab0)))), ?s2)"
    by blast
  from Send_all_hosts_failed[of st_ab demo_env sender_data _ ?e ?t1 ?t3] n1 d1 f1
  have b: "Send demo_env sender_data st_ab =
      (Inl (AllHostsFailed (length (Hosts (sender st_ab)))), assignPrimaryHost [] ?t3)"
    by blast
  show ?thesis
    using a b f0 f1 d1 by (simp add: st_ab_fields st_ab0_fields)
qed

text \<open>
  The count is not the number of addresses tried when a cached primary was tried: with an
  empty list and \<open>a\<close> cached, one address is dialled and the error says 0; with the list
  \<open>a\<close>, \<open>b\<close> and \<open>b\<close> cached, three drives are started and the error says 2.
\<close>

theorem Send_all_hosts_failed_counterexample:
  "fst (Send demo_env sender_data st_a_only) = Inl (AllHostsFailed 0) \<and>
   map fst (dials (snd (Send demo_env sender_data st_a_only))) = [''a:10051''] \<and>
   drives (snd (Send demo_env sender_data st_a_only)) = [''a:10051''] \<and>
   fst (Send demo_env sender_data st_ab) = Inl (AllHostsFailed 2) \<and>
   drives (snd (Send demo_env sender_data st_ab)) = [''b:10051'', ''a:10051'', ''b:10051'']"
proof -
  have "Send demo_env sender_data st_a_only =
     (Inl (AllHostsFailed 0),
      assignPrimaryHost []
        (st_a_only\<lparr>dials := [(''a:10051'', sendOnce_buffer demo_env sender_data)],
                    drives := [''a:10051'']\<rparr>))"
    by (simp add: Send_def st_a_only_fields drive_a_down Let_def assignPrimaryHost_def)
  then show ?thesis
    by (simp add: Send_ab assignPrimaryHost_def st_a_only_fields)
qed

section \<open>The UpdateHost flag\<close>

lemma sendWithRedirects_UpdateHost:
  "sendWithRedirects E p a (setUpdateHost b st) =
     (fst (sendWithRedirects E p a st), setUpdateHost b (snd (sendWithRedirects E p a st)))"
proof -
  have "sendWithRedirects_loop E p a a 0 (setUpdateHost b st) =
     (fst (sendWithRedirects_loop E p a a 0 st), setUpdateHost b (snd (sendWithRedirects_loop E p a a 0 st)))"
    by (rule loop_commute) (simp_all add: setUpdateHost_def)
  then show ?thesis
    by (simp add: sendWithRedirects_eq_loop) (simp add: setUpdateHost_def)
qed

lemma Send_range_UpdateHost:
  "Send_range E p hs (setUpdateHost b st) =
     (fst (Send_range E p hs st), setUpdateHost b (snd (Send_range E p hs st)))"
proof (induction hs arbitrary: st)
  case Nil
  show ?case by (simp add: setUpdateHost_def)
next
  case (Cons h hs)
  obtain r st1 where d: "sendWithRedirects E p h st = (r, st1)" by fastforce
  then have d': "sendWithRedirects E p h (setUpdateHost b st) = (r, setUpdateHost b st1)"
    by (simp add: sendWithRedirects_UpdateHost)
  show ?case
  proof (cases r)
    case (Inl e)
    then show ?thesis using d d' Cons.IH[of st1] by simp
  next
    case (Inr res)
    then show ?thesis using d d' by (simp add: setUpdateHost_def assignPrimaryHost_def)
  qed
qed

lemma Send_ignores_UpdateHost:
  "Send E p (setUpdateHost b st) = (fst (Send E p st), setUpdateHost b (snd (Send E p st))) \<and>
   Hosts (sender (snd (Send E p (setUpdateHost b st)))) = Hosts (sender (snd (Send E p st))) \<and>
   PrimaryHost (sender (snd (Send E p (setUpdateHost b st)))) =
     PrimaryHost (sender (snd (Send E p st)))"
proof -
  let ?c = "PrimaryHost (sender st)"
  have main: "Send E p (setUpdateHost b st) = (fst (Send E p st), setUpdateHost b (snd (Send E p st)))"
  proof (cases "?c = []")
    case True
    then show ?thesis
      using Send_range_UpdateHost[of E p "Hosts (sender st)" b st]
      by (simp add: Send_def) (simp add: setUpdateHost_def)
  next
    case False
    obtain r st1 where d: "sendWithRedirects E p ?c st = (r, st1)" by fastforce
    then have d': "sendWithRedirects E p ?c (setUpdateHost b st) = (r, setUpdateHost b st1)"
      by (simp add: sendWithRedirects_UpdateHost)
    have c': "PrimaryHost (sender (setUpdateHost b st)) = ?c"
      by (simp add: setUpdateHost_def)
    show ?thesis
    proof (cases r)
      case (Inr res)
      then show ?thesis using False d d' c' by (simp add: Send_def)
    next
      case (Inl e)
      have sw: "assignPrimaryHost [] (setUpdateHost b st1) = setUpdateHost b (assignPrimaryHost [] st1)"
        by (simp add: setUpdateHost_def assignPrimaryHost_def)
      have hs: "Hosts (sender (setUpdateHost b (assignPrimaryHost [] st1))) =
                Hosts (sender (assignPrimaryHost [] st1))"
        by (simp add: setUpdateHost_def)
      show ?thesis using False d d' c' Inl
        by (simp add: Send_def Let_def sw hs Send_range_UpdateHost)
    qed
  qed
  then show ?thesis by (simp add: setUpdateHost_def)
qed

text \<open>
  Claim C7 (the \<open>UpdateHost\<close> flag). No code reads the flag: by \<open>Send_ignores_UpdateHost\<close> a
  send returns the same result and leaves the same addresses in the sender whether the
  flag is set or not. At the sender for \<open>r1\<close>, where the send succeeds at \<open>r3\<close> after two
  redirects, the list is still \<open>r1\<close> alone and the cached primary is \<open>r1\<close>, with the flag set
  and with the flag cleared.
\<close>

theorem Send_UpdateHost_redirect:
  "fst (Send demo_env sender_data (setUpdateHost True (st_r1 3))) = Inr res_success \<and>
   map fst (dials (snd (Send demo_env sender_data (setUpdateHost True (st_r1 3))))) =
     [''r1:10051'', ''r2:10051'', ''r3:10051''] \<and>
   Hosts (sender (snd (Send demo_env sender_data (setUpdateHost True (st_r1 3))))) =
     [''r1:10051''] \<and>
   PrimaryHost (sender (snd (Send demo_env sender_data (setUpdateHost True (st_r1 3))))) =
     ''r1:10051'' \<and>
   Hosts (sender (snd (Send demo_env sender_data (setUpdateHost False (st_r1 3))))) =
     [''r1:10051''] \<and>
   PrimaryHost (sender (snd (Send demo_env sender_data (setUpdateHost False (st_r1 3))))) =
     ''r1:10051''"
proof -
  have h: "Hosts (NewSender ''r1:10051'') = [''r1:10051'']"
    by (simp add: NewSender_def normalizeHost_demo)
  have "Send demo_env sender_data (setUpdateHost b (st_r1 3)) =
          (fst (Send demo_env sender_data (st_r1 3)),
           setUpdateHost b (snd (Send demo_env sender_data (st_r1 3))))" for b
    using Send_ignores_UpdateHost[of demo_env sender_data b "st_r1 3"] by blast
  then show ?thesis
    by (simp add: Send_r1 setUpdateHost_def h)
qed

section \<open>The addresses dialled\<close>


























section \<open>Registration\<close>

lemma Send_Inr_success:
  assumes "Send E p st = (Inr res, st')"
  shows "Response res = ''success''"
proof (cases rule: Send_cases[of st E p])
  case (hit res1 st1)
  then show ?thesis using assms sendWithRedirects_Inr_success by auto
next
  case (miss e1 st1)
  then have "Send_range E p (Hosts (sender st)) (assignPrimaryHost [] st1) = (Inr res, st')"
    using assms by simp
  from Send_range_Inr[OF this] show ?thesis
    using sendWithRedirects_Inr_success by blast
next
  case none
  then have "Send_range E p (Hosts (sender st)) st = (Inr res, st')"
    using assms by simp
  from Send_range_Inr[OF this] show ?thesis
    using sendWithRedirects_Inr_success by blast
qed

lemma RegisterHost_one_Send:
  "RegisterHost E host hostmetadata st =
     (case Send E \<lparr>Request = ''active checks'', Data = [], Clock = 0, NS = 0, Host = host,
                    HostMetadata = hostmetadata\<rparr> st of
        (Inl err, st1) \<Rightarrow> (Some (SendingPacket err), st1)
      | (Inr res, st1) \<Rightarrow> (None, st1))"
proof -
  let ?p = "\<lparr>Request = ''active checks'', Data = [], Clock = 0, NS = 0, Host = host,
              HostMetadata = hostmetadata\<rparr>"
  obtain r st1 where s: "Send E ?p st = (r, st1)" by fastforce
  show ?thesis
  proof (cases r)
    case (Inl e)
    then show ?thesis using s by (simp add: RegisterHost_def)
  next
    case (Inr res)
    with s have "Response res = ''success''" by (auto dest: Send_Inr_success)
    then show ?thesis using s Inr by (simp add: RegisterHost_def)
  qed
qed

text \<open>
  Claim C1 (registration retries once). \<open>Send\<close> returns a response only when its status is
  "success" (\<open>Send_Inr_success\<close>), so the second \<open>Send\<close> of \<open>RegisterHost\<close> is never reached
  (\<open>RegisterHost_one_Send\<close>). At the peer \<open>reg\<close>, which answers "failed" to the first
  request and would answer "success" to the second, \<open>RegisterHost\<close> fails with "sending
  packet: all 1 hosts failed" after one request.
\<close>

theorem RegisterHost_failed_then_success:
  "RegisterHost demo_env ''prueba'' ''prueba'' (fresh (NewSender ''reg:10051'')) =
     (Some (SendingPacket (AllHostsFailed 1)),
      \<lparr>sender = NewSender ''reg:10051'',
       dials = [(''reg:10051'', sendOnce_buffer demo_env active_checks)],
       drives = [''reg:10051''], assigned = []\<rparr>) \<and>
   fst (sendOnce demo_env active_checks ''reg:10051'' (fresh (NewSender ''reg:10051''))) =
     Inr res_not_found \<and>
   fst (sendOnce demo_env active_checks ''reg:10051''
          (snd (RegisterHost demo_env ''prueba'' ''prueba'' (fresh (NewSender ''reg:10051''))))) =
     Inr res_success"
proof -
  let ?st = "fresh (NewSender ''reg:10051'')"
  have send: "Send demo_env active_checks ?st =
     (Inl (AllHostsFailed 1),
      \<lparr>sender = NewSender ''reg:10051'',
       dials = [(''reg:10051'', sendOnce_buffer demo_env active_checks)],
       drives = [''reg:10051''], assigned = []\<rparr>)"
    by (simp add: demo_eval NewSender_def normalizeHost_demo peer_reg defaultMaxRedirects_def)
  have reg: "RegisterHost demo_env ''prueba'' ''prueba'' ?st =
     (Some (SendingPacket (AllHostsFailed 1)),
      \<lparr>sender = NewSender ''reg:10051'',
       dials = [(''reg:10051'', sendOnce_buffer demo_env active_checks)],
       drives = [''reg:10051''], assigned = []\<rparr>)"
    using send by (simp add: RegisterHost_one_Send active_checks_def)
  have first: "fst (sendOnce demo_env active_checks ''reg:10051'' ?st) = Inr res_not_found"
    by (simp add: sendOnce_Received fresh_def peer_reg Unmarshal_not_found)
  have second: "fst (sendOnce demo_env active_checks ''reg:10051''
       \<lparr>sender = NewSender ''reg:10051'',
        dials = [(''reg:10051'', sendOnce_buffer demo_env active_checks)],
        drives = [''reg:10051''], assigned = []\<rparr>) = Inr res_success"
    by (simp add: sendOnce_Received peer_reg Unmarshal_success)
  show ?thesis using reg first second by simp
qed

section \<open>Statistics\<close>

lemma GetInfo_range_Inl:
  "GetInfo_range ParseFloat xs ret = Inl e \<Longrightarrow>
     (\<exists>x. e = SplitExpected2 (length (Split x CHR '':'')) x \<and> length (Split x CHR '':'') \<noteq> 2) \<or>
     (\<exists>v. e = SecondsSpentParsing v \<and> ParseFloat v = None)"
proof (induction xs arbitrary: ret)
  case Nil
  then show ?case by simp
next
  case (Cons x xs)
  show ?case
  proof (cases "length (Split x CHR '':'') = 2")
    case False
    then have "GetInfo_range ParseFloat (x # xs) ret = Inl (SplitExpected2 (length (Split x CHR '':'')) x)"
      by (auto split: list.splits)
    with Cons.prems False show ?thesis by auto
  next
    case True
    then obtain k v where kv: "Split x CHR '':'' = [k, v]"
      by (cases "Split x CHR '':''"; simp; (rename_tac a as, case_tac as; simp))
    from Cons.prems show ?thesis
      using Cons.IH
      by (auto simp: kv Let_def split: if_splits option.splits)
  qed
qed

lemma GetInfo_never_rejects_integers:
  assumes "Response r = ''success''"
    and "length (Split (Info r) CHR '';'') = 4"
    and "list_all (\<lambda>x. length (Split x CHR '':'') = 2) (Split (Info r) CHR '';'')"
    and "\<And>v. ParseFloat v \<noteq> None"
  shows "\<exists>ri. GetInfo ParseFloat r = Inr ri"
proof (cases "GetInfo ParseFloat r")
  case (Inr ri)
  then show ?thesis by blast
next
  case (Inl e)
  then have range: "GetInfo_range ParseFloat (Split (Info r) CHR '';'')
      \<lparr>Processed = 0, Failed = 0, Total = 0, Spent = 0\<rparr> = Inl e"
    using assms(1,2) by (simp add: GetInfo_def)
  have two: "length (Split x CHR '':'') = 2" if "x \<in> set (Split (Info r) CHR '';'')" for x
    using assms(3) that by (simp add: list_all_iff)
  have "GetInfo_range ParseFloat xs ret \<noteq> Inl e"
    if "\<forall>x\<in>set xs. length (Split x CHR '':'') = 2" for xs ret
    using that
  proof (induction xs arbitrary: ret)
    case Nil
    then show ?case by simp
  next
    case (Cons x xs)
    then obtain k v where kv: "Split x CHR '':'' = [k, v]"
      by (cases "Split x CHR '':''"; simp; (rename_tac a as, case_tac as; simp))
    from Cons show ?case
      by (auto simp: kv Let_def assms(4) split: option.splits)
  qed
  with range two show ?thesis by blast
qed

text \<open>
  Claim C4 (an invalid integer is a parse error). \<open>GetInfo\<close> stores the value \<open>Atoi\<close>
  returns and never reads its error. For the info string "processed: abc; failed: 0;
  total: 1; seconds spent: 0.000030", which has four segments of two tokens and whose
  first value is not an integer, it returns statistics with \<open>Processed = 0\<close> (as soon as
  the seconds are a valid number); it can only fail on the seconds.
\<close>

theorem GetInfo_invalid_integer:
  "snd (Atoi ''abc'') = Some ErrSyntax \<and>
   length (Split (Info res_bad_count) CHR '';'') = 4 \<and>
   list_all (\<lambda>x. length (Split x CHR '':'') = 2) (Split (Info res_bad_count) CHR '';'') \<and>
   GetInfo ParseFloat res_bad_count =
     (case ParseFloat ''0.000030'' of
        None \<Rightarrow> Inl (SecondsSpentParsing ''0.000030'')
      | Some d \<Rightarrow> Inr \<lparr>Processed = 0, Failed = 0, Total = 1, Spent = d\<rparr>)"
  by (simp add: res_bad_count_def GetInfo_def TrimSpace_def spaceWidth_def asciiSpace_def
        Atoi_def isDigit_def split: option.split)

end
